theory Spec2Isabelle
  imports Complex_Main "HOL-Library.Sublist" "HOL-Library.AList"
begin

section \<open>JavaScript strings and numbers\<close>

text \<open>
  Strings are lists of characters. Only the ASCII part of the language's character classes
  is modelled: \<open>trim\<close> and the regular-expression class \<open>\s\<close> remove
  tab, line feed, vertical tab, form feed, carriage return and space; \<open>\d\<close> is
  \<open>[0-9]\<close> and \<open>\w\<close> is \<open>[A-Za-z0-9_]\<close>.
\<close>

definition isSpace :: "char \<Rightarrow> bool" where
  "isSpace c = (c \<in> set [CHR 0x09, CHR 0x0A, CHR 0x0B, CHR 0x0C, CHR 0x0D, CHR 0x20])"

definition isDigit :: "char \<Rightarrow> bool" where
  "isDigit c = (c \<in> set ''0123456789'')"

definition isUpper :: "char \<Rightarrow> bool" where
  "isUpper c = (c \<in> set ''ABCDEFGHIJKLMNOPQRSTUVWXYZ'')"

definition isLower :: "char \<Rightarrow> bool" where
  "isLower c = (c \<in> set ''abcdefghijklmnopqrstuvwxyz'')"

definition isWord :: "char \<Rightarrow> bool" where
  "isWord c = (isLower c \<or> isUpper c \<or> isDigit c \<or> c = CHR ''_'')"

definition trim :: "string \<Rightarrow> string" where
  "trim s = rev (dropWhile isSpace (rev (dropWhile isSpace s)))"

definition lowerChar :: "char \<Rightarrow> char" where
  "lowerChar c = (if isUpper c then char_of (of_char c + (32::nat)) else c)"

definition toLowerCase :: "string \<Rightarrow> string" where
  "toLowerCase s = map lowerChar s"

definition startsWith :: "string \<Rightarrow> string \<Rightarrow> bool" where
  "startsWith s p = prefix p s"

definition endsWith :: "string \<Rightarrow> string \<Rightarrow> bool" where
  "endsWith s p = suffix p s"

definition includes' :: "'a list \<Rightarrow> 'a \<Rightarrow> bool" where
  "includes' xs x = (x \<in> set xs)"

text \<open>\<open>s.split(',')\<close>: the pieces between the separators, at least one piece.\<close>

fun split :: "char \<Rightarrow> string \<Rightarrow> string list" where
  "split sep [] = [[]]"
| "split sep (c # cs) =
     (if c = sep then [] # split sep cs
      else (case split sep cs of [] \<Rightarrow> [[c]] | p # ps \<Rightarrow> (c # p) # ps))"

text \<open>
  A JavaScript number is an IEEE double: a finite value is kept as the rational it
  denotes, and every operation rounds its exact result to the nearest double, a tie going
  to the double with the even significand (\<open>fromRat\<close>). A double has a significand of
  53 bits: a value \<open>x\<close> with \<open>2^e \<le> x < 2^(e+1)\<close> is rounded to a multiple of
  \<open>2^(e-52)\<close>, where \<open>e\<close> is not taken below \<open>-1022\<close> (the subnormal numbers
  are the multiples of \<open>2^(-1074)\<close>), and a result that reaches \<open>2^1024\<close> is an
  infinity. The two zeros are not told apart.
\<close>

datatype JsNumber = Finite rat | PosInfinity | NegInfinity | NaN

definition negate :: "JsNumber \<Rightarrow> JsNumber" where
  "negate n =
     (case n of Finite x \<Rightarrow> Finite (- x) | PosInfinity \<Rightarrow> NegInfinity
      | NegInfinity \<Rightarrow> PosInfinity | NaN \<Rightarrow> NaN)"

definition roundHalfEven :: "rat \<Rightarrow> int" where
  "roundHalfEven q =
     (let f = \<lfloor>q\<rfloor>; d = q - of_int f
      in if d < 1 / 2 then f else if 1 / 2 < d then f + 1 else if even f then f else f + 1)"

text \<open>The exponent of a positive number: halve it down to, or double it up to, the
  interval from 1 to 2, within the range of the exponents of the doubles.\<close>

function expoUp :: "rat \<Rightarrow> int \<Rightarrow> int" where
  "expoUp x e = (if 2 \<le> x \<and> e < 1024 then expoUp (x / 2) (e + 1) else e)"
  by pat_completeness auto
termination
  by (relation "measure (\<lambda>(x, e). nat (1024 - e))") auto

function expoDown :: "rat \<Rightarrow> int \<Rightarrow> int" where
  "expoDown x e = (if x < 1 \<and> - 1022 < e then expoDown (2 * x) (e - 1) else e)"
  by pat_completeness auto
termination
  by (relation "measure (\<lambda>(x, e). nat (e + 1022))") auto

declare expoUp.simps [simp del] expoDown.simps [simp del]

definition exponent :: "rat \<Rightarrow> int" where
  "exponent x = (if 1 \<le> x then expoUp x 0 else expoDown x 0)"

definition roundPositive :: "rat \<Rightarrow> JsNumber" where
  "roundPositive x =
     (let e = exponent x; ulp = 2 powi (e - 52);
          y = of_int (roundHalfEven (x / ulp)) * ulp
      in if 2 ^ 1024 \<le> y then PosInfinity else Finite y)"

definition fromRat :: "rat \<Rightarrow> JsNumber" where
  "fromRat x =
     (if x = 0 then Finite 0
      else if x < 0 then negate (roundPositive (- x))
      else roundPositive x)"

definition digitVal :: "char \<Rightarrow> nat" where
  "digitVal c = of_char c - 48"

definition digitsValue :: "string \<Rightarrow> nat" where
  "digitsValue ds = foldl (\<lambda>n c. 10 * n + digitVal c) 0 ds"

text \<open>The value of the decimal literal \<open>ds.fs\<close> (\<open>fs\<close> empty when there is no fraction).\<close>

definition decimalValue :: "string \<Rightarrow> string \<Rightarrow> rat" where
  "decimalValue ds fs = of_nat (digitsValue ds) + of_nat (digitsValue fs) / 10 ^ length fs"

text \<open>
  \<open>Number(s)\<close> on a string, after the grammar of numeric string literals: optional
  white space around an optionally signed decimal literal (digits, an optional fraction,
  an optional exponent, or \<open>Infinity\<close>) or an unsigned hexadecimal, octal or binary
  integer; the empty string is \<open>0\<close>, anything else is \<open>NaN\<close>. The value of the
  literal is rounded to the nearest double.
\<close>

definition hexVal :: "char \<Rightarrow> nat option" where
  "hexVal c =
     (if isDigit c then Some (digitVal c)
      else if c \<in> set ''abcdef'' then Some (of_char c - 87)
      else if c \<in> set ''ABCDEF'' then Some (of_char c - 55)
      else None)"

fun radixValue :: "nat \<Rightarrow> string \<Rightarrow> nat \<Rightarrow> nat option" where
  "radixValue b [] acc = Some acc"
| "radixValue b (c # cs) acc =
     (case hexVal c of
        None \<Rightarrow> None
      | Some d \<Rightarrow> if d < b then radixValue b cs (b * acc + d) else None)"

definition nonDecimalLiteral :: "string \<Rightarrow> nat option" where
  "nonDecimalLiteral s =
     (case s of
        c0 # c1 # d # ds \<Rightarrow>
          (if c0 \<noteq> CHR ''0'' then None
           else if c1 \<in> set ''xX'' then radixValue 16 (d # ds) 0
           else if c1 \<in> set ''oO'' then radixValue 8 (d # ds) 0
           else if c1 \<in> set ''bB'' then radixValue 2 (d # ds) 0
           else None)
      | _ \<Rightarrow> None)"

definition exponentPart :: "string \<Rightarrow> int option" where
  "exponentPart s =
     (case s of
        [] \<Rightarrow> Some 0
      | e # r \<Rightarrow>
          (if e \<notin> set ''eE'' then None
           else
             (let neg = (r \<noteq> [] \<and> hd r = CHR ''-'');
                  ds = (if r \<noteq> [] \<and> hd r \<in> set ''+-'' then tl r else r)
              in if ds = [] \<or> \<not> list_all isDigit ds then None
                 else Some (if neg then - int (digitsValue ds) else int (digitsValue ds)))))"

definition scale10 :: "rat \<Rightarrow> int \<Rightarrow> rat" where
  "scale10 x e = (if 0 \<le> e then x * 10 ^ nat e else x / 10 ^ nat (- e))"

definition unsignedDecimal :: "string \<Rightarrow> JsNumber" where
  "unsignedDecimal s =
     (if s = ''Infinity'' then PosInfinity
      else
        (let ds = takeWhile isDigit s; r1 = dropWhile isDigit s;
             dot = (r1 \<noteq> [] \<and> hd r1 = CHR ''.'');
             fs = (if dot then takeWhile isDigit (tl r1) else []);
             r2 = (if dot then dropWhile isDigit (tl r1) else r1)
         in if ds = [] \<and> fs = [] then NaN
            else (case exponentPart r2 of
                    None \<Rightarrow> NaN
                  | Some e \<Rightarrow> fromRat (scale10 (decimalValue ds fs) e))))"

definition Number :: "string \<Rightarrow> JsNumber" where
  "Number input =
     (let s = trim input
      in if s = [] then Finite 0
         else (case nonDecimalLiteral s of
                 Some n \<Rightarrow> fromRat (of_nat n)
               | None \<Rightarrow>
                   (if hd s = CHR ''-'' then negate (unsignedDecimal (tl s))
                    else if hd s = CHR ''+'' then unsignedDecimal (tl s)
                    else unsignedDecimal s)))"

definition jsTimes :: "JsNumber \<Rightarrow> JsNumber \<Rightarrow> JsNumber" where
  "jsTimes a b =
     (case (a, b) of
        (Finite x, Finite y) \<Rightarrow> fromRat (x * y)
      | (NaN, _) \<Rightarrow> NaN
      | (_, NaN) \<Rightarrow> NaN
      | (Finite x, PosInfinity) \<Rightarrow> (if x = 0 then NaN else if 0 < x then PosInfinity else NegInfinity)
      | (Finite x, NegInfinity) \<Rightarrow> (if x = 0 then NaN else if 0 < x then NegInfinity else PosInfinity)
      | (PosInfinity, Finite y) \<Rightarrow> (if y = 0 then NaN else if 0 < y then PosInfinity else NegInfinity)
      | (NegInfinity, Finite y) \<Rightarrow> (if y = 0 then NaN else if 0 < y then NegInfinity else PosInfinity)
      | (PosInfinity, PosInfinity) \<Rightarrow> PosInfinity
      | (NegInfinity, NegInfinity) \<Rightarrow> PosInfinity
      | (PosInfinity, NegInfinity) \<Rightarrow> NegInfinity
      | (NegInfinity, PosInfinity) \<Rightarrow> NegInfinity)"

definition jsPlus :: "JsNumber \<Rightarrow> JsNumber \<Rightarrow> JsNumber" where
  "jsPlus a b =
     (case (a, b) of
        (Finite x, Finite y) \<Rightarrow> fromRat (x + y)
      | (NaN, _) \<Rightarrow> NaN
      | (_, NaN) \<Rightarrow> NaN
      | (PosInfinity, NegInfinity) \<Rightarrow> NaN
      | (NegInfinity, PosInfinity) \<Rightarrow> NaN
      | (PosInfinity, _) \<Rightarrow> PosInfinity
      | (_, PosInfinity) \<Rightarrow> PosInfinity
      | (NegInfinity, _) \<Rightarrow> NegInfinity
      | (_, NegInfinity) \<Rightarrow> NegInfinity)"

text \<open>\<open>Number.isFinite\<close>.\<close>

definition isFinite :: "JsNumber \<Rightarrow> bool" where
  "isFinite n = (case n of Finite x \<Rightarrow> True | _ \<Rightarrow> False)"

section \<open>Errors and values\<close>

text \<open>
  The library throws three kinds of error. A \<open>CommandError\<close> carries a message; the
  constructors below name the message of each throw site and keep the data it interpolates.
  In the vocabulary of the specification: \<open>DuplicateOption\<close>, \<open>DuplicateArgument\<close> and
  \<open>DuplicateCommand\<close> are its DuplicateDefinition (\<open>... is already defined\<close>,
  \<open>... already exists\<close>); \<open>RequiredAfterOptional\<close> is its OrderingViolation;
  \<open>UnexpectedOption name original\<close> is the message
  \<open>Expected argument <name>, but received option "original"\<close>;
  \<open>UnknownOption original hint\<close> is \<open>Unknown option: original\<close> with its hint;
  \<open>MissingOptionValue key\<close> is \<open>Option "--key" expects a value\<close>;
  \<open>UnexpectedArgument raw hint\<close> is \<open>Unexpected argument: raw\<close> with its hint;
  \<open>MissingRequiredArgument name\<close> is \<open>Missing required argument: <name>\<close>.
\<close>

datatype CommandErrorKind =
    DuplicateOption string
  | DuplicateArgument string
  | RequiredAfterOptional string
  | DuplicateCommand string
  | HandlerAlreadySet
  | UnexpectedOption string string
  | UnknownOption string string
  | MissingOptionValue string
  | UnexpectedArgument string string
  | MissingRequiredArgument string

datatype ParsingErrorKind =
    InvalidBoolean string
  | InvalidChoice string "string list"
  | InvalidNumber string
  | EmptyList string
  | EmptyPath
  | EmptyTime
  | InvalidTimeFormat string
  | UnsupportedTimeUnit string
  | InvalidSizeFormat string
  | UnsupportedSizeUnit string
  | UnsafeJavaScriptObject string
  | InvalidObjectSyntax string
  | InvalidRootValue
  | InvalidJSONKey string
  | InvalidValueType
  | UnsupportedValueType

datatype Error =
    CommandError CommandErrorKind
  | ParsingError ParsingErrorKind
  | TypeError string

text \<open>The value kinds of \<open>ValueMap\<close>: \<open>TBoolean\<close> is the key \<open>'boolean'\<close>, and so on.\<close>

datatype ValueKey =
    TBoolean | TString | TNumber | TChoice | TPath | TTime | TSize | TJson
  | TBooleanArray | TStringArray | TNumberArray | TPathArray | TTimeArray | TSizeArray

text \<open>What \<open>JSON.parse\<close> returns; an object is the list of its own entries, in the order of
  \<open>Object.entries\<close>.\<close>

datatype Json =
    JNull | JBool bool | JNum JsNumber | JStr string
  | JArr "Json list" | JObj "(string \<times> Json) list"

text \<open>
  Runtime values bound to arguments and options. A \<open>Path\<close>, \<open>Time\<close> or \<open>Size\<close>
  object is kept by its \<open>raw\<close> field and, for the last two, its \<open>value\<close> field (the
  resolved form of a path depends on the working directory and is left out).
\<close>

datatype Value =
    VBoolean bool
  | VString string
  | VNumber JsNumber
  | VPath string
  | VTime string JsNumber
  | VSize string JsNumber
  | VObject "(string \<times> Json) list"
  | VArray "Value list"

text \<open>The own properties of an object used as a record, in the order of their creation.\<close>

type_synonym Bindings = "(string \<times> Value) list"

text \<open>
  What the code takes from the runtime and the repository does not define: the date parser
  (\<open>dateOffset s\<close> is \<open>new Date(s).getTime() - Date.now()\<close>, \<open>None\<close> when the date is
  invalid), \<open>JSON.parse\<close> (\<open>None\<close> when it throws), and the property lookup through a
  prototype that an assignment has put in the place of \<open>Object.prototype\<close>. For a record
  with the own properties \<open>own\<close> and the prototype \<open>p\<close>, and a name \<open>n\<close> that is not
  an own property: \<open>getInherited p own n\<close> is the outcome of the test
  \<open>record[n] === undefined\<close> (an inherited getter may throw), and
  \<open>setInherited p own n v\<close> is the outcome of \<open>record[n] = v\<close>, the own properties and
  the prototype after it (an inherited accessor without setter makes it throw).
\<close>

record Host =
  dateOffset :: "string \<Rightarrow> rat option"
  JSON_parse :: "string \<Rightarrow> Json option"
  getInherited :: "Value \<Rightarrow> Bindings \<Rightarrow> string \<Rightarrow> Error + bool"
  setInherited :: "Value \<Rightarrow> Bindings \<Rightarrow> string \<Rightarrow> Value \<Rightarrow> Error + Bindings \<times> Value option"

section \<open>The token classifier (parser/token)\<close>

record ParsedArguments =
  key :: "string option"
  value' :: "string option"
  isFlag :: bool
  isNegation :: bool
  original :: string
  isEndOfFlags :: bool

definition positionalToken :: "string \<Rightarrow> ParsedArguments" where
  "positionalToken token =
     \<lparr>key = None, value' = None, isFlag = False, isNegation = False,
      original = token, isEndOfFlags = False\<rparr>"

text \<open>\<open>ALIAS_WITH_VALUE = /^-(\w+)=(.*)$/s\<close> and \<open>ALIAS = /^-\w+$/\<close>.\<close>

definition ALIAS_WITH_VALUE :: "string \<Rightarrow> bool" where
  "ALIAS_WITH_VALUE s =
     (case s of
        [] \<Rightarrow> False
      | c # r \<Rightarrow> c = CHR ''-'' \<and> takeWhile isWord r \<noteq> [] \<and>
                 startsWith (dropWhile isWord r) ''='')"

definition ALIAS :: "string \<Rightarrow> bool" where
  "ALIAS s = (case s of [] \<Rightarrow> False | c # r \<Rightarrow> c = CHR ''-'' \<and> r \<noteq> [] \<and> list_all isWord r)"

text \<open>\<open>s.split(/=(.*)/s)\<close> on a string with an \<open>=\<close>: the text before the first
  \<open>=\<close> and the text after it.\<close>

definition keyPart :: "string \<Rightarrow> string" where
  "keyPart s = takeWhile (\<lambda>c. c \<noteq> CHR ''='') s"

definition valPart :: "string \<Rightarrow> string" where
  "valPart s = drop 1 (dropWhile (\<lambda>c. c \<noteq> CHR ''='') s)"

definition parseToken :: "string \<Rightarrow> ParsedArguments" where
  "parseToken token =
     (let trimmed = trim token
      in if trimmed = ''--'' then (positionalToken token)\<lparr>isEndOfFlags := True\<rparr>
         else if startsWith trimmed ''--no-'' then
           (positionalToken token)\<lparr>key := Some (drop 5 trimmed), isFlag := True, isNegation := True\<rparr>
         else if startsWith trimmed ''--'' \<and> includes' trimmed CHR ''='' then
           (positionalToken token)
             \<lparr>key := Some (drop 2 (keyPart trimmed)), value' := Some (valPart trimmed), isFlag := True\<rparr>
         else if startsWith trimmed ''--'' then
           (positionalToken token)\<lparr>key := Some (drop 2 trimmed), isFlag := True\<rparr>
         else if ALIAS_WITH_VALUE trimmed then
           (positionalToken token)
             \<lparr>key := Some (drop 1 (keyPart trimmed)), value' := Some (valPart trimmed), isFlag := True\<rparr>
         else if ALIAS trimmed then
           (positionalToken token)\<lparr>key := Some (drop 1 trimmed), isFlag := True\<rparr>
         else positionalToken token)"

section \<open>Value coercion (parser/value)\<close>

definition TRUE_VALUES :: "string list" where
  "TRUE_VALUES = [''true'', ''1'', ''yes'', ''on'']"

definition FALSE_VALUES :: "string list" where
  "FALSE_VALUES = [''false'', ''0'', ''no'', ''off'']"

definition parseBoolean :: "string \<Rightarrow> Error + bool" where
  "parseBoolean input =
     (let trimmed = toLowerCase (trim input)
      in if includes' TRUE_VALUES trimmed then Inr True
         else if includes' FALSE_VALUES trimmed then Inr False
         else Inl (ParsingError (InvalidBoolean input)))"

definition parseChoice :: "string \<Rightarrow> string list \<Rightarrow> Error + string" where
  "parseChoice input choices =
     (let trimmed = trim input
      in if includes' choices trimmed then Inr trimmed
         else Inl (ParsingError (InvalidChoice input choices)))"

definition parseNumber :: "string \<Rightarrow> Error + JsNumber" where
  "parseNumber input =
     (let n = Number input
      in if n = NaN then Inl (ParsingError (InvalidNumber input)) else Inr n)"

definition parseList :: "string \<Rightarrow> Error + string list" where
  "parseList input =
     (let trimmed = trim input;
          lst = (if startsWith trimmed ''['' \<and> endsWith trimmed '']''
                 then butlast (tl trimmed) else trimmed)
      in if lst = [] then Inl (ParsingError (EmptyList input))
         else Inr (filter (\<lambda>v. v \<noteq> []) (map trim (split CHR '','' lst))))"

subsection \<open>Path\<close>

definition Path_new :: "string \<Rightarrow> Error + Value" where
  "Path_new input =
     (if trim input = [] then Inl (ParsingError EmptyPath) else Inr (VPath input))"

subsection \<open>Size\<close>

text \<open>
  The match of \<open>/^(\d+(?:\.\d+)?)(b|kb|mb|gb|tb|pb)$/i\<close>, as its two groups. The digits
  are taken greedily; no shorter run can match, since neither the fraction nor a unit
  starts with a digit, and no unit starts with a dot.
\<close>

definition SIZE_UNITS :: "string list" where
  "SIZE_UNITS = [''b'', ''kb'', ''mb'', ''gb'', ''tb'', ''pb'']"

definition numberPrefix :: "string \<Rightarrow> (string \<times> string) option" where
  "numberPrefix s =
     (let ds = takeWhile isDigit s; r1 = dropWhile isDigit s
      in if ds = [] then None
         else (case r1 of
                 [] \<Rightarrow> Some (ds, r1)
               | c # r \<Rightarrow>
                   if c = CHR ''.'' \<and> takeWhile isDigit r \<noteq> []
                   then Some (ds @ c # takeWhile isDigit r, dropWhile isDigit r)
                   else Some (ds, r1)))"

definition sizeMatch :: "string \<Rightarrow> (string \<times> string) option" where
  "sizeMatch s =
     (case numberPrefix s of
        None \<Rightarrow> None
      | Some (num, r) \<Rightarrow> if includes' SIZE_UNITS (toLowerCase r) then Some (num, r) else None)"

definition parseToBytes :: "string \<Rightarrow> Error + JsNumber" where
  "parseToBytes input =
     (case sizeMatch (trim input) of
        None \<Rightarrow> Inl (ParsingError (InvalidSizeFormat input))
      | Some (num, u) \<Rightarrow>
          (let v = Number num; unit = toLowerCase u
           in if unit = ''b'' then Inr v
              else if unit = ''kb'' then Inr (jsTimes v (Finite 1024))
              else if unit = ''mb'' then Inr (jsTimes v (Finite (1024 ^ 2)))
              else if unit = ''gb'' then Inr (jsTimes v (Finite (1024 ^ 3)))
              else if unit = ''tb'' then Inr (jsTimes v (Finite (1024 ^ 4)))
              else if unit = ''pb'' then Inr (jsTimes v (Finite (1024 ^ 5)))
              else Inl (ParsingError (UnsupportedSizeUnit unit))))"

definition Size_new :: "string \<Rightarrow> Error + Value" where
  "Size_new input =
     (if trim input = [] then Inl (TypeError ''Size must be a non-empty string'')
      else (case parseToBytes input of
              Inl e \<Rightarrow> Inl e
            | Inr v \<Rightarrow> Inr (VSize input v)))"

text \<open>\<open>Size.isValid\<close> on a string: the same pattern, and the number must be finite.\<close>

definition Size_isValid :: "string \<Rightarrow> bool" where
  "Size_isValid input =
     (if trim input = [] then False
      else (case sizeMatch (trim input) of
              None \<Rightarrow> False
            | Some (num, u) \<Rightarrow> isFinite (Number num)))"

subsection \<open>Time\<close>

definition unitToMs :: "string \<Rightarrow> Error + rat" where
  "unitToMs unit =
     (if unit = ''ms'' then Inr 1
      else if unit = ''s'' then Inr 1000
      else if unit = ''m'' then Inr 60000
      else if unit = ''h'' then Inr 3600000
      else if unit = ''d'' then Inr 86400000
      else if unit = ''w'' then Inr 604800000
      else if unit = ''mo'' then Inr 2629800000
      else if unit = ''y'' then Inr 31557600000
      else Inl (ParsingError (UnsupportedTimeUnit unit)))"

text \<open>
  One match of \<open>/(\d+(?:\.\d+)?)(ms|s|m|h|d|w|mo|y)/g\<close> at the start of a string: the
  number, the unit (the first alternative, in the order written, that the text continues
  with) and the text after the match.
\<close>

definition TIME_UNITS :: "string list" where
  "TIME_UNITS = [''ms'', ''s'', ''m'', ''h'', ''d'', ''w'', ''mo'', ''y'']"

definition durationMatch :: "string \<Rightarrow> (string \<times> string \<times> string) option" where
  "durationMatch s =
     (case numberPrefix s of
        None \<Rightarrow> None
      | Some (num, r) \<Rightarrow>
          (case find (\<lambda>u. startsWith r u) TIME_UNITS of
             None \<Rightarrow> None
           | Some u \<Rightarrow> Some (num, u, drop (length u) r)))"

lemma numberPrefix_shorter: "numberPrefix s = Some (num, r) \<Longrightarrow> length r < length s"
proof -
  assume a: "numberPrefix s = Some (num, r)"
  have nonempty: "takeWhile isDigit s \<noteq> []"
    using a by (auto simp: numberPrefix_def Let_def)
  have l1: "length (dropWhile isDigit s) < length s"
  proof -
    have "length (takeWhile isDigit s) + length (dropWhile isDigit s) = length s"
      by (metis length_append takeWhile_dropWhile_id)
    with nonempty show ?thesis by (cases "takeWhile isDigit s") auto
  qed
  have l2: "length (dropWhile isDigit t) \<le> length t" for t
    by (simp add: length_dropWhile_le)
  show ?thesis
  proof (cases "dropWhile isDigit s")
    case Nil
    with a nonempty have "r = []" by (auto simp: numberPrefix_def Let_def)
    with l1 Nil show ?thesis by simp
  next
    case (Cons c t)
    with a nonempty have "r = dropWhile isDigit t \<or> r = dropWhile isDigit s"
      by (auto simp: numberPrefix_def Let_def split: if_splits)
    moreover have "length (dropWhile isDigit t) < length s"
      using l1 l2 [of t] Cons by simp
    ultimately show ?thesis using l1 by auto
  qed
qed

lemma durationMatch_shorter:
  "durationMatch s = Some (num, u, rest) \<Longrightarrow> length rest < length s"
  by (auto simp: durationMatch_def split: option.splits dest!: numberPrefix_shorter)

text \<open>
  The \<open>while ((match = regex.exec(input)) !== null)\<close> loop of \<open>parseDuration\<close>: the
  next match is the leftmost one in the text not yet consumed.
\<close>

function durationLoop :: "string \<Rightarrow> JsNumber \<Rightarrow> bool \<Rightarrow> Error + (JsNumber \<times> bool)" where
  "durationLoop s tot found =
     (if s = [] then Inr (tot, found)
      else (case durationMatch s of
              None \<Rightarrow> durationLoop (tl s) tot found
            | Some (num, u, rest) \<Rightarrow>
                (case unitToMs u of
                   Inl e \<Rightarrow> Inl e
                 | Inr f \<Rightarrow>
                     durationLoop rest (jsPlus tot (jsTimes (Number num) (Finite f))) True)))"
  by pat_completeness auto
termination
  by (relation "measure (\<lambda>(s, tot, found). length s)")
     (auto dest: durationMatch_shorter)

declare durationLoop.simps [simp del]

definition parseDuration :: "string \<Rightarrow> Error + JsNumber option" where
  "parseDuration input =
     (case durationLoop input (Finite 0) False of
        Inl e \<Rightarrow> Inl e
      | Inr (tot, found) \<Rightarrow> Inr (if found then Some tot else None))"

text \<open>
  \<open>parseDate\<close>: slashes become dashes, a leading \<open>dd-mm-yy\<close> or \<open>dd-mm-yyyy\<close>
  (\<open>/^(\d{2})-(\d{2})-(\d{2,4})/\<close>) is reordered to year first, a two-digit year gets
  the prefix \<open>20\<close>, and the runtime parses the result.
\<close>

definition normalizeDate :: "string \<Rightarrow> string" where
  "normalizeDate input =
     (let s = map (\<lambda>c. if c = CHR ''/'' then CHR ''-'' else c) input
      in (case s of
            d1 # d2 # h1 # m1 # m2 # h2 # r \<Rightarrow>
              (let y = take 4 (takeWhile isDigit r)
               in if isDigit d1 \<and> isDigit d2 \<and> h1 = CHR ''-'' \<and> isDigit m1 \<and> isDigit m2 \<and>
                     h2 = CHR ''-'' \<and> 2 \<le> length y
                  then (if length y = 2 then ''20'' @ y else y) @ ''-'' @ [m1, m2] @ ''-'' @
                       [d1, d2] @ drop (length y) r
                  else s)
          | _ \<Rightarrow> s))"

definition parseDate :: "Host \<Rightarrow> string \<Rightarrow> JsNumber option" where
  "parseDate h input = map_option Finite (dateOffset h (normalizeDate input))"

definition parseToMs :: "Host \<Rightarrow> string \<Rightarrow> Error + JsNumber" where
  "parseToMs h input =
     (let trimmed = trim input
      in (case parseDate h trimmed of
            Some dateMs \<Rightarrow> Inr dateMs
          | None \<Rightarrow>
              (case parseDuration trimmed of
                 Inl e \<Rightarrow> Inl e
               | Inr (Some durationMs) \<Rightarrow> Inr durationMs
               | Inr None \<Rightarrow> Inl (ParsingError (InvalidTimeFormat input)))))"

definition Time_new :: "Host \<Rightarrow> string \<Rightarrow> Error + Value" where
  "Time_new h input =
     (if trim input = [] then Inl (ParsingError EmptyTime)
      else (case parseToMs h input of
              Inl e \<Rightarrow> Inl e
            | Inr v \<Rightarrow> Inr (VTime input v)))"

subsection \<open>JSON (parse-json)\<close>

text \<open>
  \<open>FORBIDDEN_TOKENS.test(input)\<close>: one of the words occurs in the input between two word
  boundaries. The words consist of word characters, so \<open>\b\<close> before one means that no
  word character precedes it, and \<open>\b\<close> after it that none follows.
\<close>

definition FORBIDDEN_WORDS :: "string list" where
  "FORBIDDEN_WORDS =
     [''function'', ''class'', ''new'', ''return'', ''process'', ''require'', ''import'',
      ''export'', ''eval'', ''this'', ''global'', ''window'']"

definition wordAt :: "string \<Rightarrow> string \<Rightarrow> bool" where
  "wordAt w s = (startsWith s w \<and> (case drop (length w) s of [] \<Rightarrow> True | c # r \<Rightarrow> \<not> isWord c))"

fun tokenScan :: "bool \<Rightarrow> string \<Rightarrow> bool" where
  "tokenScan prevWord [] = False"
| "tokenScan prevWord (c # cs) =
     (if \<not> prevWord \<and> list_ex (\<lambda>w. wordAt w (c # cs)) FORBIDDEN_WORDS then True
      else tokenScan (isWord c) cs)"

definition FORBIDDEN_TOKENS :: "string \<Rightarrow> bool" where
  "FORBIDDEN_TOKENS input = tokenScan False input"

definition FORBIDDEN_KEYS :: "string list" where
  "FORBIDDEN_KEYS = [''__proto__'', ''prototype'', ''constructor'']"

text \<open>
  The normalisation of \<open>jsObjectToJson\<close>, one function per \<open>replace\<close>. A global
  replace continues after the text it has matched; where there is no match at a character,
  the character is copied.
\<close>

definition stripOpenParen :: "string \<Rightarrow> string" where
  "stripOpenParen s = (if startsWith s ''('' then tl s else s)"

definition stripCloseParen :: "string \<Rightarrow> string" where
  "stripCloseParen s = (if endsWith s '')'' then butlast s else s)"

definition doubleQuotes :: "string \<Rightarrow> string" where
  "doubleQuotes s = map (\<lambda>c. if c = CHR 0x27 then CHR 0x22 else c) s"

definition isIdentStart :: "char \<Rightarrow> bool" where
  "isIdentStart c = (isLower c \<or> isUpper c \<or> c = CHR ''_'' \<or> c = CHR ''$'')"

definition isIdentChar :: "char \<Rightarrow> bool" where
  "isIdentChar c = (isWord c \<or> c = CHR ''$'')"

text \<open>The rest of \<open>/([{,]\s*)([a-zA-Z_$][\w$]*)\s*:/\<close> after its first character: the
  white space, the key, and the text after the colon.\<close>

definition keyMatch :: "string \<Rightarrow> (string \<times> string \<times> string) option" where
  "keyMatch s =
     (let ws = takeWhile isSpace s; r1 = dropWhile isSpace s
      in (case r1 of
            [] \<Rightarrow> None
          | k # r2 \<Rightarrow>
              if isIdentStart k then
                (case dropWhile isSpace (dropWhile isIdentChar r2) of
                   [] \<Rightarrow> None
                 | c # r5 \<Rightarrow>
                     if c = CHR '':'' then Some (ws, k # takeWhile isIdentChar r2, r5) else None)
              else None))"

lemma keyMatch_shorter: "keyMatch s = Some (ws, ident, r) \<Longrightarrow> length r < length s"
proof -
  assume a: "keyMatch s = Some (ws, ident, r)"
  have le: "length (dropWhile P t) \<le> length t" for P and t :: string
    by (simp add: length_dropWhile_le)
  from a obtain k r2 c where
    r1: "dropWhile isSpace s = k # r2" and
    r4: "dropWhile isSpace (dropWhile isIdentChar r2) = c # r"
    by (auto simp: keyMatch_def Let_def split: list.splits if_splits)
  have "length r < length (dropWhile isIdentChar r2)"
    using le [of isSpace "dropWhile isIdentChar r2"] r4 by simp
  also have "\<dots> \<le> length r2" by (rule le)
  also have "\<dots> < length (dropWhile isSpace s)" using r1 by simp
  also have "\<dots> \<le> length s" by (rule le)
  finally show ?thesis .
qed

function quoteKeys :: "string \<Rightarrow> string" where
  "quoteKeys s =
     (case s of
        [] \<Rightarrow> []
      | c # cs \<Rightarrow>
          if c = CHR ''{'' \<or> c = CHR '','' then
            (case keyMatch cs of
               None \<Rightarrow> c # quoteKeys cs
             | Some (ws, ident, r) \<Rightarrow> c # ws @ [CHR 0x22] @ ident @ [CHR 0x22] @ '':'' @ quoteKeys r)
          else c # quoteKeys cs)"
  by pat_completeness auto
termination
  by (relation "measure length") (auto dest: keyMatch_shorter)

declare quoteKeys.simps [simp del]

text \<open>\<open>/,(\s*[}\]])/g\<close>: a comma followed by white space and a closing bracket is dropped.\<close>

function dropTrailingCommas :: "string \<Rightarrow> string" where
  "dropTrailingCommas s =
     (case s of
        [] \<Rightarrow> []
      | c # cs \<Rightarrow>
          if c = CHR '','' then
            (case dropWhile isSpace cs of
               [] \<Rightarrow> c # dropTrailingCommas cs
             | b # r \<Rightarrow>
                 if b = CHR ''}'' \<or> b = CHR '']''
                 then takeWhile isSpace cs @ b # dropTrailingCommas r
                 else c # dropTrailingCommas cs)
          else c # dropTrailingCommas cs)"
  by pat_completeness auto
termination
proof (relation "measure length", goal_cases)
  case 1
  show ?case by simp
next
  case (2 s c cs)
  then show ?case by simp
next
  case (3 s c cs b r)
  have "length (dropWhile isSpace cs) \<le> length cs" by (simp add: length_dropWhile_le)
  with 3 show ?case by simp
next
  case (4 s c cs b r)
  then show ?case by simp
next
  case (5 s c cs)
  then show ?case by simp
qed

declare dropTrailingCommas.simps [simp del]

definition jsObjectToJson :: "string \<Rightarrow> Error + string" where
  "jsObjectToJson input =
     (if FORBIDDEN_TOKENS input then Inl (ParsingError (UnsafeJavaScriptObject input))
      else Inr (dropTrailingCommas (quoteKeys (doubleQuotes
                  (stripCloseParen (stripOpenParen (trim input)))))))"

text \<open>
  \<open>sanitizeObject\<close> walks the entries in order. The values come from \<open>JSON.parse\<close>, so a
  value of type \<open>object\<close> is \<open>null\<close>, an array or a plain object, and the branch that
  rejects other objects is never taken.
\<close>

fun sanitizeObject :: "(string \<times> Json) list \<Rightarrow> Error + (string \<times> Json) list" where
  "sanitizeObject [] = Inr []"
| "sanitizeObject ((k, v) # es) =
     (if includes' FORBIDDEN_KEYS k then Inl (ParsingError (InvalidJSONKey k))
      else (case v of
              JObj inner \<Rightarrow>
                (case sanitizeObject inner of
                   Inl e \<Rightarrow> Inl e
                 | Inr clean \<Rightarrow>
                     (case sanitizeObject es of
                        Inl e \<Rightarrow> Inl e
                      | Inr rest \<Rightarrow> Inr ((k, JObj clean) # rest)))
            | _ \<Rightarrow>
                (case sanitizeObject es of
                   Inl e \<Rightarrow> Inl e
                 | Inr rest \<Rightarrow> Inr ((k, v) # rest))))"

text \<open>The two attempts of \<open>parseJson\<close>; every exception of the second one is replaced by
  \<open>Invalid object syntax\<close>.\<close>

definition parseAttempts :: "Host \<Rightarrow> string \<Rightarrow> Error + Json" where
  "parseAttempts h input =
     (case JSON_parse h input of
        Some parsed \<Rightarrow> Inr parsed
      | None \<Rightarrow>
          (case jsObjectToJson input of
             Inl e \<Rightarrow> Inl (ParsingError (InvalidObjectSyntax input))
           | Inr normalized \<Rightarrow>
               (case JSON_parse h normalized of
                  Some parsed \<Rightarrow> Inr parsed
                | None \<Rightarrow> Inl (ParsingError (InvalidObjectSyntax input)))))"

definition parseJson :: "Host \<Rightarrow> string \<Rightarrow> Error + (string \<times> Json) list" where
  "parseJson h input =
     (case parseAttempts h input of
        Inl e \<Rightarrow> Inl e
      | Inr parsed \<Rightarrow>
          (case parsed of
             JObj entries \<Rightarrow> sanitizeObject entries
           | _ \<Rightarrow> Inl (ParsingError InvalidRootValue)))"

subsection \<open>\<open>parseValue\<close>, \<open>coerceArgument\<close>, \<open>coerceOption\<close>\<close>

text \<open>\<open>xs.map(f)\<close> with a callback that may throw: the first exception ends the map.\<close>

fun mapThrowing :: "('a \<Rightarrow> Error + 'b) \<Rightarrow> 'a list \<Rightarrow> Error + 'b list" where
  "mapThrowing f [] = Inr []"
| "mapThrowing f (x # xs) =
     (case f x of
        Inl e \<Rightarrow> Inl e
      | Inr y \<Rightarrow> (case mapThrowing f xs of Inl e \<Rightarrow> Inl e | Inr ys \<Rightarrow> Inr (y # ys)))"

definition parseListOf :: "(string \<Rightarrow> Error + Value) \<Rightarrow> string \<Rightarrow> Error + Value" where
  "parseListOf f v =
     (case parseList v of
        Inl e \<Rightarrow> Inl e
      | Inr items \<Rightarrow> (case mapThrowing f items of Inl e \<Rightarrow> Inl e | Inr vs \<Rightarrow> Inr (VArray vs)))"

definition booleanValue :: "string \<Rightarrow> Error + Value" where
  "booleanValue v = (case parseBoolean v of Inl e \<Rightarrow> Inl e | Inr b \<Rightarrow> Inr (VBoolean b))"

definition numberValue :: "string \<Rightarrow> Error + Value" where
  "numberValue v = (case parseNumber v of Inl e \<Rightarrow> Inl e | Inr n \<Rightarrow> Inr (VNumber n))"

text \<open>The \<open>switch\<close> of \<open>parseValue\<close>; its \<open>default\<close> branch has no value kind left.\<close>

definition parseValue :: "Host \<Rightarrow> ValueKey \<Rightarrow> string \<Rightarrow> string list \<Rightarrow> Error + Value" where
  "parseValue h ty v choices =
     (case ty of
        TBoolean \<Rightarrow> booleanValue v
      | TChoice \<Rightarrow> (case parseChoice v choices of Inl e \<Rightarrow> Inl e | Inr c \<Rightarrow> Inr (VString c))
      | TString \<Rightarrow> Inr (VString v)
      | TNumber \<Rightarrow> numberValue v
      | TPath \<Rightarrow> Path_new v
      | TTime \<Rightarrow> Time_new h v
      | TSize \<Rightarrow> Size_new v
      | TJson \<Rightarrow> (case parseJson h v of Inl e \<Rightarrow> Inl e | Inr obj \<Rightarrow> Inr (VObject obj))
      | TBooleanArray \<Rightarrow> parseListOf booleanValue v
      | TNumberArray \<Rightarrow> parseListOf numberValue v
      | TPathArray \<Rightarrow> parseListOf Path_new v
      | TTimeArray \<Rightarrow> parseListOf (Time_new h) v
      | TSizeArray \<Rightarrow> parseListOf Size_new v
      | TStringArray \<Rightarrow> parseListOf (\<lambda>x. Inr (VString (trim x))) v)"

text \<open>
  The first parameter of \<open>coerceArgument\<close> and \<open>coerceOption\<close> has type \<open>any\<close>, and
  the functions read its \<open>type\<close> property. The token scan passes the definition
  (\<open>ADefinition\<close>, by its \<open>type\<close> field); the defaulting loops pass \<open>arg.type\<close>
  itself, which is a string (\<open>AString\<close>), whose \<open>type\<close> property is \<open>undefined\<close>, or
  \<open>undefined\<close> (\<open>AUndefined\<close>), on which the property read throws a \<open>TypeError\<close>.
\<close>

datatype Any = ADefinition "ValueKey option" | AString ValueKey | AUndefined

definition typeProperty :: "Any \<Rightarrow> Error + ValueKey option" where
  "typeProperty a =
     (case a of
        ADefinition t \<Rightarrow> Inr t
      | AString s \<Rightarrow> Inr None
      | AUndefined \<Rightarrow> Inl (TypeError ''Cannot read properties of undefined''))"

text \<open>\<open>parseValue\<close> takes a string; every caller that passes a definition passes a raw
  token.\<close>

definition parseRaw :: "Host \<Rightarrow> ValueKey \<Rightarrow> Value \<Rightarrow> string list \<Rightarrow> Error + Value" where
  "parseRaw h ty raw choices =
     (case raw of
        VString s \<Rightarrow> parseValue h ty s choices
      | _ \<Rightarrow> Inl (TypeError ''the raw value is not a string''))"

definition coerceArgument :: "Host \<Rightarrow> Any \<Rightarrow> Value \<Rightarrow> string list \<Rightarrow> Error + Value" where
  "coerceArgument h arg raw choices =
     (case typeProperty arg of
        Inl e \<Rightarrow> Inl e
      | Inr None \<Rightarrow> Inr raw
      | Inr (Some ty) \<Rightarrow> parseRaw h ty raw choices)"

definition coerceOption :: "Host \<Rightarrow> Any \<Rightarrow> Value \<Rightarrow> string list \<Rightarrow> Error + Value" where
  "coerceOption h opt raw choices =
     (case raw of
        VBoolean b \<Rightarrow> Inr raw
      | _ \<Rightarrow>
          (case typeProperty opt of
             Inl e \<Rightarrow> Inl e
           | Inr None \<Rightarrow> Inr raw
           | Inr (Some ty) \<Rightarrow> parseRaw h ty raw choices))"

section \<open>The command tree (command)\<close>

text \<open>
  \<open>Argument\<close> and \<open>Option\<close> of \<open>command/types\<close>. An absent \<open>optional\<close> is
  \<open>False\<close>, an absent \<open>choices\<close> or \<open>alias\<close> the empty list: the code reads all
  three only through tests and calls that treat \<open>undefined\<close> so.
\<close>

record Argument =
  type :: "ValueKey option"
  description :: "string option"
  optional :: bool
  defaultValue :: "Value option"
  choices :: "string list"

record CmdOption = Argument +
  alias' :: "string list"

text \<open>
  A \<open>Map\<close> is the list of its entries in insertion order, with distinct keys;
  \<open>Map.set\<close> is \<open>AList.update\<close>. The handler is kept by an identifier.
\<close>

datatype Command = Command
  (name: "string option")
  (commands: "(string \<times> Command) list")
  (aliases: "string list")
  (argumentsDef: "(string \<times> Argument) list")
  (optionsDef: "(string \<times> CmdOption) list")
  (commandDescription: "string option")
  (handler: "nat option")

definition new_Command :: "string option \<Rightarrow> Command" where
  "new_Command n = Command n [] [] [] [] None None"

definition has :: "('k \<times> 'v) list \<Rightarrow> 'k \<Rightarrow> bool" where
  "has m k = (map_of m k \<noteq> None)"

text \<open>\<open>{...DEFAULT_OPTION, ...config}\<close>: the default type is \<open>boolean\<close>.\<close>

definition withDefaultType :: "'a Argument_scheme \<Rightarrow> 'a Argument_scheme" where
  "withDefaultType config =
     (case type config of None \<Rightarrow> config\<lparr>type := Some TBoolean\<rparr> | Some t \<Rightarrow> config)"

definition option :: "string \<Rightarrow> CmdOption \<Rightarrow> Command \<Rightarrow> Error + Command" where
  "option n config c =
     (let options = withDefaultType config
      in if has (optionsDef c) n then Inl (CommandError (DuplicateOption n))
         else Inr (Command (name c) (commands c) (aliases c) (argumentsDef c)
                     (AList.update n options (optionsDef c)) (commandDescription c) (handler c)))"

definition argument :: "string \<Rightarrow> Argument \<Rightarrow> Command \<Rightarrow> Error + Command" where
  "argument n config c =
     (let options = withDefaultType config
      in if has (argumentsDef c) n then Inl (CommandError (DuplicateArgument n))
         else if \<not> optional options \<and>
                 list_ex (\<lambda>(k, arg). optional arg \<or> defaultValue arg \<noteq> None) (argumentsDef c)
         then Inl (CommandError (RequiredAfterOptional n))
         else Inr (Command (name c) (commands c) (aliases c)
                     (AList.update n options (argumentsDef c)) (optionsDef c)
                     (commandDescription c) (handler c)))"

text \<open>\<open>command(name, cmd)\<close> registers \<open>cmd\<close>, or a new command, under \<open>name\<close> and
  returns the child; here the result is the parent after the call.\<close>

definition command :: "string \<Rightarrow> Command option \<Rightarrow> Command \<Rightarrow> Error + Command" where
  "command n given c =
     (if has (commands c) n then Inl (CommandError (DuplicateCommand n))
      else
        (let cmd = (case given of None \<Rightarrow> new_Command None | Some g \<Rightarrow> g);
             child = Command (Some n) (commands cmd) (aliases cmd) (argumentsDef cmd)
                       (optionsDef cmd) (commandDescription cmd) (handler cmd)
         in Inr (Command (name c) (AList.update n child (commands c)) (aliases c)
                   (argumentsDef c) (optionsDef c) (commandDescription c) (handler c))))"

text \<open>A \<open>Set\<close> is the list of its elements in insertion order; \<open>Set.add\<close> appends an
  element that is not in the set.\<close>

definition Set_add :: "'a \<Rightarrow> 'a list \<Rightarrow> 'a list" where
  "Set_add x xs = (if includes' xs x then xs else xs @ [x])"

definition alias_method :: "string list \<Rightarrow> Command \<Rightarrow> Error + Command" where
  "alias_method names c =
     Inr (Command (name c) (commands c) (fold Set_add names (aliases c)) (argumentsDef c)
            (optionsDef c) (commandDescription c) (handler c))"

definition description' :: "string \<Rightarrow> Command \<Rightarrow> Error + Command" where
  "description' d c =
     Inr (Command (name c) (commands c) (aliases c) (argumentsDef c) (optionsDef c)
            (Some d) (handler c))"

definition action :: "nat \<Rightarrow> Command \<Rightarrow> Error + Command" where
  "action callback c =
     (if handler c \<noteq> None then Inl (CommandError HandlerAlreadySet)
      else Inr (Command (name c) (commands c) (aliases c) (argumentsDef c) (optionsDef c)
                  (commandDescription c) (Some callback)))"

section \<open>Resolution (\<open>CLI.run\<close>)\<close>

text \<open>
  \<open>args\<close> and \<open>options\<close> are objects created by \<open>{}\<close> and used as records. Such an
  object is kept by its own properties and its prototype: \<open>None\<close> is \<open>Object.prototype\<close>,
  which the object has when it is created, and \<open>Some v\<close> is a value that an assignment to
  \<open>__proto__\<close> has made the prototype.

  \<open>OBJECT_PROTOTYPE\<close> lists the properties of \<open>Object.prototype\<close>. Reading one of these
  names from a record that has no own property of the name gives the inherited member, not
  \<open>undefined\<close>. Assigning to one of them creates an own property, except for
  \<open>__proto__\<close>, whose setter makes an object the prototype of the record and ignores
  every other value.
\<close>

definition OBJECT_PROTOTYPE :: "string list" where
  "OBJECT_PROTOTYPE =
     [''constructor'', ''__defineGetter__'', ''__defineSetter__'', ''hasOwnProperty'',
      ''__lookupGetter__'', ''__lookupSetter__'', ''isPrototypeOf'', ''propertyIsEnumerable'',
      ''toString'', ''valueOf'', ''__proto__'', ''toLocaleString'']"

text \<open>Booleans, strings and numbers are primitive values; a \<open>Path\<close>, \<open>Time\<close> or
  \<open>Size\<close>, an array and an object are objects.\<close>

definition isObject :: "Value \<Rightarrow> bool" where
  "isObject v =
     (case v of VBoolean b \<Rightarrow> False | VString s \<Rightarrow> False | VNumber n \<Rightarrow> False | _ \<Rightarrow> True)"

text \<open>The test \<open>record[n] === undefined\<close>.\<close>

definition isUndefined :: "Host \<Rightarrow> Bindings \<Rightarrow> Value option \<Rightarrow> string \<Rightarrow> Error + bool" where
  "isUndefined h own proto n =
     (if has own n then Inr False
      else (case proto of
              None \<Rightarrow> Inr (\<not> includes' OBJECT_PROTOTYPE n)
            | Some p \<Rightarrow> getInherited h p own n))"

text \<open>The assignment \<open>record[n] = v\<close>.\<close>

definition assign ::
  "Host \<Rightarrow> Bindings \<Rightarrow> Value option \<Rightarrow> string \<Rightarrow> Value \<Rightarrow> Error + Bindings \<times> Value option" where
  "assign h own proto n v =
     (if has own n then Inr (AList.update n v own, proto)
      else (case proto of
              None \<Rightarrow>
                if n = ''__proto__'' then Inr (own, if isObject v then Some v else None)
                else Inr (AList.update n v own, None)
            | Some p \<Rightarrow> setInherited h p own n v))"

text \<open>
  How a run ends: the version or the help was printed and the process left with status 0;
  an error was caught, its message printed and the process left with status 1; the active
  command has no handler and its help was printed; or the handler was called with
  \<open>args\<close> and \<open>options\<close>, given here by their own properties.
\<close>

datatype Outcome =
    VersionPrinted "string option" string
  | HelpPrinted Command
  | ErrorPrinted Error
  | HelpForMissingHandler Command
  | HandlerCalled Command Bindings Bindings

record ScanState =
  args :: Bindings
  options :: Bindings
  positionalIndex :: nat
  endOfFlags :: bool
  argsProto :: "Value option"
  optionsProto :: "Value option"

definition bindArgument :: "Host \<Rightarrow> ScanState \<Rightarrow> string \<Rightarrow> Value \<Rightarrow> Error + ScanState" where
  "bindArgument h st n v =
     (case assign h (args st) (argsProto st) n v of
        Inl e \<Rightarrow> Inl e
      | Inr (own, proto) \<Rightarrow> Inr (st\<lparr>args := own, argsProto := proto\<rparr>))"

definition bindOption :: "Host \<Rightarrow> ScanState \<Rightarrow> string \<Rightarrow> Value \<Rightarrow> Error + ScanState" where
  "bindOption h st n v =
     (case assign h (options st) (optionsProto st) n v of
        Inl e \<Rightarrow> Inl e
      | Inr (own, proto) \<Rightarrow> Inr (st\<lparr>options := own, optionsProto := proto\<rparr>))"

text \<open>Step 1: subcommands are matched by their registered names only.\<close>

fun descend :: "Command \<Rightarrow> string list \<Rightarrow> Command \<times> string list" where
  "descend cmd [] = (cmd, [])"
| "descend cmd (next # tokens) =
     (case map_of (commands cmd) next of
        None \<Rightarrow> (cmd, next # tokens)
      | Some sub \<Rightarrow> descend sub tokens)"

text \<open>
  One iteration of the token loop, over the token \<open>raw = tokens[i]\<close> and
  \<open>next = tokens[i + 1]\<close> (\<open>None\<close> past the end): it ends the run, or continues with the
  following token, or (\<open>i++\<close>) with the one after it.
\<close>

datatype Step = Stop Outcome | Continue ScanState | ContinueAfterNext ScanState

definition required :: "'a Argument_scheme \<Rightarrow> bool" where
  "required arg = (\<not> optional arg \<and> defaultValue arg = None)"

text \<open>The lookup of an option by its name and, failing that, by the first definition
  whose aliases include the key; the key becomes the name of the definition found.\<close>

definition lookupOption :: "(string \<times> CmdOption) list \<Rightarrow> string \<Rightarrow> (string \<times> CmdOption) option" where
  "lookupOption defs k =
     (case map_of defs k of
        Some opt \<Rightarrow> Some (k, opt)
      | None \<Rightarrow> find (\<lambda>(n, optionDef). includes' (alias' optionDef) k) defs)"

text \<open>
  The error thrown when an option that takes a value has none. The code constructs the
  \<open>CommandError\<close> \<open>Option "--key" expects a value\<close> with the type of the option, a
  string, as the list \<open>expected\<close>; the constructor formats a non-empty \<open>expected\<close> with
  \<open>items.map\<close>, which a string does not have, so the construction itself throws a
  \<open>TypeError\<close>, and that is the error caught. The \<open>CommandError\<close> is thrown only for an
  option whose type is \<open>undefined\<close>.
\<close>

definition missingValue :: "string \<Rightarrow> CmdOption \<Rightarrow> Error" where
  "missingValue k opt =
     (case type opt of
        None \<Rightarrow> CommandError (MissingOptionValue k)
      | Some t \<Rightarrow> TypeError ''items.map is not a function'')"

definition optionStep ::
  "Host \<Rightarrow> Command \<Rightarrow> ScanState \<Rightarrow> ParsedArguments \<Rightarrow> string option \<Rightarrow> Step" where
  "optionStep h cmd st parsed next =
     (if optionsDef cmd = [] then
        Stop (ErrorPrinted (CommandError
          (UnknownOption (original parsed) ''This command does not accept any options.'')))
      else
        (case lookupOption (optionsDef cmd) (case key parsed of None \<Rightarrow> [] | Some k \<Rightarrow> k) of
           None \<Rightarrow>
             Stop (ErrorPrinted (CommandError
               (UnknownOption (original parsed) ''This option is not defined for this command.'')))
         | Some (k, opt) \<Rightarrow>
             if type opt = Some TBoolean then
               (case bindOption h st k
                       (case value' parsed of
                          Some v \<Rightarrow> VString v
                        | None \<Rightarrow> VBoolean (\<not> isNegation parsed)) of
                  Inl e \<Rightarrow> Stop (ErrorPrinted e)
                | Inr st' \<Rightarrow> Continue st')
             else
               (case value' parsed of
                  Some v \<Rightarrow>
                    (case coerceOption h (ADefinition (type opt)) (VString v) (choices opt) of
                       Inl e \<Rightarrow> Stop (ErrorPrinted e)
                     | Inr x \<Rightarrow>
                         (case bindOption h st k x of
                            Inl e \<Rightarrow> Stop (ErrorPrinted e)
                          | Inr st' \<Rightarrow> Continue st'))
                | None \<Rightarrow>
                    (case next of
                       None \<Rightarrow> Stop (ErrorPrinted (missingValue k opt))
                     | Some n \<Rightarrow>
                         if n = [] then Stop (ErrorPrinted (missingValue k opt))
                         else
                           (case coerceOption h (ADefinition (type opt)) (VString n) [] of
                              Inl e \<Rightarrow> Stop (ErrorPrinted e)
                            | Inr x \<Rightarrow>
                                (case bindOption h st k x of
                                   Inl e \<Rightarrow> Stop (ErrorPrinted e)
                                 | Inr st' \<Rightarrow> ContinueAfterNext st'))))))"

definition afterPositional ::
  "Host \<Rightarrow> Command \<Rightarrow> ScanState \<Rightarrow> string \<Rightarrow> ParsedArguments \<Rightarrow> string option \<Rightarrow> Step" where
  "afterPositional h cmd st raw parsed next =
     (if isFlag parsed \<and> \<not> endOfFlags st then optionStep h cmd st parsed next
      else if argumentsDef cmd = [] then
        Stop (ErrorPrinted (CommandError
          (UnexpectedArgument raw ''This command does not accept positional arguments.'')))
      else
        Stop (ErrorPrinted (CommandError
          (UnexpectedArgument raw ''No more positional arguments are defined for this command.''))))"

definition step ::
  "Host \<Rightarrow> string \<Rightarrow> Command \<Rightarrow> ScanState \<Rightarrow> string \<Rightarrow> string option \<Rightarrow> Step" where
  "step h version cmd st raw next =
     (let parsed = parseToken raw
      in if key parsed = Some ''version'' \<or> key parsed = Some ''v'' then
           Stop (VersionPrinted (name cmd) version)
         else if key parsed = Some ''help'' \<or> key parsed = Some ''h'' then
           Stop (HelpPrinted cmd)
         else if isEndOfFlags parsed then Continue (st\<lparr>endOfFlags := True\<rparr>)
         else if positionalIndex st < length (argumentsDef cmd) then
           (case argumentsDef cmd ! positionalIndex st of
              (n, arg) \<Rightarrow>
                if isFlag parsed \<and> \<not> endOfFlags st then
                  (if required arg then
                     Stop (ErrorPrinted (CommandError (UnexpectedOption n (original parsed))))
                   else afterPositional h cmd st raw parsed next)
                else
                  (case coerceArgument h (ADefinition (type arg)) (VString raw) (choices arg) of
                     Inl e \<Rightarrow> Stop (ErrorPrinted e)
                   | Inr x \<Rightarrow>
                       (case bindArgument h st n x of
                          Inl e \<Rightarrow> Stop (ErrorPrinted e)
                        | Inr st' \<Rightarrow>
                            Continue (st'\<lparr>positionalIndex := positionalIndex st + 1\<rparr>))))
         else afterPositional h cmd st raw parsed next)"

function scan ::
  "Host \<Rightarrow> string \<Rightarrow> Command \<Rightarrow> string list \<Rightarrow> ScanState \<Rightarrow> Outcome + ScanState" where
  "scan h version cmd [] st = Inr st"
| "scan h version cmd (raw # rest) st =
     (case step h version cmd st raw (case rest of [] \<Rightarrow> None | n # r \<Rightarrow> Some n) of
        Stop out \<Rightarrow> Inl out
      | Continue st' \<Rightarrow> scan h version cmd rest st'
      | ContinueAfterNext st' \<Rightarrow> scan h version cmd (tl rest) st')"
  by pat_completeness auto
termination
  by (relation "measure (\<lambda>(h, version, cmd, tokens, st). length tokens)") auto

text \<open>Steps 4 and 5: the defaults. Both loops pass the type key, not the definition.\<close>

definition typeKey :: "'a Argument_scheme \<Rightarrow> Any" where
  "typeKey arg = (case type arg of None \<Rightarrow> AUndefined | Some t \<Rightarrow> AString t)"

fun argumentDefaults ::
  "Host \<Rightarrow> (string \<times> Argument) list \<Rightarrow> Bindings \<Rightarrow> Value option \<Rightarrow>
     Error + Bindings \<times> Value option" where
  "argumentDefaults h [] own proto = Inr (own, proto)"
| "argumentDefaults h ((n, arg) # defs) own proto =
     (case isUndefined h own proto n of
        Inl e \<Rightarrow> Inl e
      | Inr False \<Rightarrow> argumentDefaults h defs own proto
      | Inr True \<Rightarrow>
          (case defaultValue arg of
             None \<Rightarrow> argumentDefaults h defs own proto
           | Some d \<Rightarrow>
               (case coerceArgument h (typeKey arg) d [] of
                  Inl e \<Rightarrow> Inl e
                | Inr x \<Rightarrow>
                    (case assign h own proto n x of
                       Inl e \<Rightarrow> Inl e
                     | Inr (own', proto') \<Rightarrow> argumentDefaults h defs own' proto'))))"

fun optionDefaults ::
  "Host \<Rightarrow> (string \<times> CmdOption) list \<Rightarrow> Bindings \<Rightarrow> Value option \<Rightarrow>
     Error + Bindings \<times> Value option" where
  "optionDefaults h [] own proto = Inr (own, proto)"
| "optionDefaults h ((n, opt) # defs) own proto =
     (case isUndefined h own proto n of
        Inl e \<Rightarrow> Inl e
      | Inr False \<Rightarrow> optionDefaults h defs own proto
      | Inr True \<Rightarrow>
          (case defaultValue opt of
             None \<Rightarrow> optionDefaults h defs own proto
           | Some d \<Rightarrow>
               (case coerceOption h (typeKey opt) d [] of
                  Inl e \<Rightarrow> Inl e
                | Inr x \<Rightarrow>
                    (case assign h own proto n x of
                       Inl e \<Rightarrow> Inl e
                     | Inr (own', proto') \<Rightarrow> optionDefaults h defs own' proto'))))"

text \<open>Step 6: the required arguments. There is no such loop over the options.\<close>

fun validateRequired ::
  "Host \<Rightarrow> (string \<times> Argument) list \<Rightarrow> Bindings \<Rightarrow> Value option \<Rightarrow> Error option" where
  "validateRequired h [] own proto = None"
| "validateRequired h ((n, arg) # defs) own proto =
     (if required arg then
        (case isUndefined h own proto n of
           Inl e \<Rightarrow> Some e
         | Inr True \<Rightarrow> Some (CommandError (MissingRequiredArgument n))
         | Inr False \<Rightarrow> validateRequired h defs own proto)
      else validateRequired h defs own proto)"

definition resolve :: "Host \<Rightarrow> string \<Rightarrow> Command \<Rightarrow> string list \<Rightarrow> Outcome" where
  "resolve h version cmd tokens =
     (case scan h version cmd tokens
             \<lparr>args = [], options = [], positionalIndex = 0, endOfFlags = False,
              argsProto = None, optionsProto = None\<rparr> of
        Inl out \<Rightarrow> out
      | Inr st \<Rightarrow>
          (case argumentDefaults h (argumentsDef cmd) (args st) (argsProto st) of
             Inl e \<Rightarrow> ErrorPrinted e
           | Inr (as, aproto) \<Rightarrow>
               (case optionDefaults h (optionsDef cmd) (options st) (optionsProto st) of
                  Inl e \<Rightarrow> ErrorPrinted e
                | Inr (os, oproto) \<Rightarrow>
                    (case validateRequired h (argumentsDef cmd) as aproto of
                       Some e \<Rightarrow> ErrorPrinted e
                     | None \<Rightarrow>
                         if handler cmd = None then HelpForMissingHandler cmd
                         else HandlerCalled cmd as os))))"

text \<open>\<open>run\<close> on the root command of a \<open>CLI\<close> with the given version.\<close>

definition run :: "Host \<Rightarrow> string \<Rightarrow> Command \<Rightarrow> string list \<Rightarrow> Outcome" where
  "run h version cli argv =
     (case descend cli argv of (cmd, tokens) \<Rightarrow> resolve h version cmd tokens)"

section \<open>A sample runtime and sample commands\<close>

text \<open>
  The general theorems below hold for every runtime. Where a statement is evaluated on a
  concrete input, the runtime is \<open>sampleHost\<close>: its date parser rejects every string (as
  the engines do on the duration strings used here), and its \<open>JSON.parse\<close> is given on
  the texts used here by the value that \<open>JSON.parse\<close> returns on them, and rejects the
  other texts used here, none of which is JSON. No input used here replaces a prototype,
  and the lookup through one is that of a prototype without properties.
\<close>

definition sampleJSON :: "string \<Rightarrow> Json option" where
  \<open>sampleJSON s =
     (if s = ''{"a":"process"}'' then Some (JObj [(''a'', JStr ''process'')])
      else if s = ''{"a":1}'' then Some (JObj [(''a'', JNum (Finite 1))])
      else if s = ''{ "a": 1 }'' then Some (JObj [(''a'', JNum (Finite 1))])
      else if s = ''{"__proto__":1}'' then Some (JObj [(''__proto__'', JNum (Finite 1))])
      else if s = ''{"a":{"constructor":1}}''
        then Some (JObj [(''a'', JObj [(''constructor'', JNum (Finite 1))])])
      else if s = ''{"a":[{"__proto__":1}]}''
        then Some (JObj [(''a'', JArr [JObj [(''__proto__'', JNum (Finite 1))]])])
      else None)\<close>

definition sampleHost :: Host where
  "sampleHost =
     \<lparr>dateOffset = (\<lambda>s. None), JSON_parse = sampleJSON,
      getInherited = (\<lambda>p own n. Inr True),
      setInherited = (\<lambda>p own n v. Inr (AList.update n v own, Some p))\<rparr>"

definition stringArgument :: Argument where
  "stringArgument =
     \<lparr>type = Some TString, description = None, optional = False, defaultValue = None,
      choices = []\<rparr>"

text \<open>\<open>new Command('open').argument('file', { type: 'string' }).action(...)\<close>, and the
  same command with the argument optional and defaulted.\<close>

definition openRequired :: Command where
  "openRequired = Command (Some ''open'') [] [] [(''file'', stringArgument)] [] None (Some 0)"

definition openOptional :: Command where
  "openOptional =
     Command (Some ''open'') [] []
       [(''file'', stringArgument\<lparr>optional := True, defaultValue := Some (VString ''a.txt'')\<rparr>)]
       [] None (Some 0)"

section \<open>Flag-shaped tokens and positional arguments\<close>

lemma parseToken_dash_x:
  "parseToken ''--x'' = (positionalToken ''--x'')\<lparr>key := Some ''x'', isFlag := True\<rparr>"
  by code_simp

text \<open>
  Claim C2. A command declares exactly one positional argument, of type string, and no
  option (and has no subcommand named \<open>--x\<close>). If the argument is required, the input
  \<open>["--x"]\<close> ends with the error \<open>Expected argument <name>, but received option "--x"\<close>
  (UnexpectedOption). If the argument is optional and has a default value, the same input
  ends with the error \<open>Unknown option: --x\<close> (UnknownOption): the run stops there, so
  \<open>--x\<close> is not bound as the value of the argument.
\<close>

theorem flag_for_single_positional:
  assumes defs: "argumentsDef cmd = [(n, arg)]"
    and ty: "type arg = Some TString"
    and noopts: "optionsDef cmd = []"
    and nosub: "map_of (commands cmd) ''--x'' = None"
  shows "(required arg \<longrightarrow>
            run h version cmd [''--x''] =
              ErrorPrinted (CommandError (UnexpectedOption n ''--x''))) \<and>
         (optional arg \<and> defaultValue arg \<noteq> None \<longrightarrow>
            run h version cmd [''--x''] =
              ErrorPrinted (CommandError
                (UnknownOption ''--x'' ''This command does not accept any options.'')))"
proof -
  have d: "descend cmd [''--x''] = (cmd, [''--x''])"
    using nosub by simp
  have s1: "required arg \<Longrightarrow>
      step h version cmd
        \<lparr>args = [], options = [], positionalIndex = 0, endOfFlags = False,
         argsProto = None, optionsProto = None\<rparr>
        ''--x'' None = Stop (ErrorPrinted (CommandError (UnexpectedOption n ''--x'')))"
    by (simp add: step_def parseToken_dash_x positionalToken_def defs)
  have s2: "optional arg \<Longrightarrow>
      step h version cmd
        \<lparr>args = [], options = [], positionalIndex = 0, endOfFlags = False,
         argsProto = None, optionsProto = None\<rparr>
        ''--x'' None = Stop (ErrorPrinted (CommandError
                (UnknownOption ''--x'' ''This command does not accept any options.'')))"
    by (simp add: step_def parseToken_dash_x positionalToken_def defs required_def
          afterPositional_def optionStep_def noopts)
  show ?thesis
    using s1 s2 by (auto simp: run_def d resolve_def simp del: descend.simps)
qed

theorem flag_for_single_positional_witness:
  "run sampleHost ''1.0.0'' openRequired [''--x''] =
     ErrorPrinted (CommandError (UnexpectedOption ''file'' ''--x'')) \<and>
   run sampleHost ''1.0.0'' openOptional [''--x''] =
     ErrorPrinted (CommandError
       (UnknownOption ''--x'' ''This command does not accept any options.''))"
  using flag_for_single_positional
          [of openRequired "''file''" stringArgument sampleHost "''1.0.0''"]
        flag_for_single_positional
          [of openOptional "''file''"
              "stringArgument\<lparr>optional := True, defaultValue := Some (VString ''a.txt'')\<rparr>"
              sampleHost "''1.0.0''"]
  by (simp add: openRequired_def openOptional_def stringArgument_def required_def)

section \<open>Required arguments and required options\<close>

text \<open>\<open>new Command('emit').option('out', { type: 'string' }).action(...)\<close>: the option
  is not optional and has no default value.\<close>

definition outputOption :: CmdOption where
  "outputOption =
     \<lparr>type = Some TString, description = None, optional = False, defaultValue = None,
      choices = [], alias' = []\<rparr>"

definition emit :: Command where
  "emit = Command (Some ''emit'') [] [] [] [(''out'', outputOption)] None (Some 0)"

text \<open>The token loop ends a run with the version, the help or an error only.\<close>

lemma step_not_HandlerCalled: "step h version cmd st raw next \<noteq> Stop (HandlerCalled c as os)"
  by (auto simp: step_def afterPositional_def optionStep_def Let_def
      split: prod.splits sum.splits option.splits if_splits)

lemma scan_not_HandlerCalled: "scan h version cmd tokens st \<noteq> Inl (HandlerCalled c as os)"
proof (induction h version cmd tokens st rule: scan.induct)
  case (1 h version cmd st)
  show ?case by simp
next
  case (2 h version cmd raw rest st)
  show ?case
  proof (cases "step h version cmd st raw (case rest of [] \<Rightarrow> None | n # r \<Rightarrow> Some n)")
    case (Stop out)
    with step_not_HandlerCalled [of h version cmd st raw _ c as os] show ?thesis by auto
  next
    case (Continue st')
    with 2 show ?thesis by simp
  next
    case (ContinueAfterNext st')
    with 2 show ?thesis by simp
  qed
qed

text \<open>
  For the positional arguments there is a validation loop: the handler is called only
  when the test \<open>args[name] === undefined\<close> has failed for every required argument, and
  the error of the loop names a required argument for which the test holds. On a record
  whose prototype has not been replaced the test holds of the names that are neither bound
  nor a property of \<open>Object.prototype\<close>.
\<close>

lemma validateRequired_None:
  "validateRequired h defs own proto = None \<Longrightarrow> (n, arg) \<in> set defs \<Longrightarrow> required arg \<Longrightarrow>
     isUndefined h own proto n = Inr False"
  by (induction defs) (auto split: if_splits sum.splits bool.splits)

lemma validateRequired_Some:
  "validateRequired h defs own proto = Some e \<Longrightarrow>
     \<exists>n arg. (n, arg) \<in> set defs \<and> required arg \<and>
       (isUndefined h own proto n = Inl e \<or>
        isUndefined h own proto n = Inr True \<and> e = CommandError (MissingRequiredArgument n))"
  by (induction defs) (fastforce split: if_splits sum.splits bool.splits)+

lemma handler_called_arguments_bound:
  assumes "resolve h version cmd tokens = HandlerCalled c as os"
    and "(n, arg) \<in> set (argumentsDef cmd)" and "required arg"
  shows "\<exists>proto. isUndefined h as proto n = Inr False"
  using assms scan_not_HandlerCalled [of h version cmd tokens _ c as os]
  by (auto simp: resolve_def split: sum.splits option.splits if_splits prod.splits
      dest: validateRequired_None)

lemma isUndefined_default:
  "isUndefined h own None n = Inr (\<not> has own n \<and> \<not> includes' OBJECT_PROTOTYPE n)"
  by (simp add: isUndefined_def)

text \<open>
  \<open>new Command('clone').argument('constructor', { type: 'string' })
  .option('valueOf', { type: 'string', defaultValue: 'x' })
  .option('__proto__', { type: 'string', optional: true }).action(...)\<close>. The names are
  those of properties of \<open>Object.prototype\<close>: the required argument passes the
  validation unbound, the default of \<open>valueOf\<close> is not bound, and a string assigned to
  \<open>__proto__\<close> is dropped.
\<close>

definition cloneCommand :: Command where
  "cloneCommand =
     Command (Some ''clone'') [] [] [(''constructor'', stringArgument)]
       [(''valueOf'',
         \<lparr>type = Some TString, description = None, optional = False,
          defaultValue = Some (VString ''x''), choices = [], alias' = []\<rparr>),
        (''__proto__'',
         \<lparr>type = Some TString, description = None, optional = True,
          defaultValue = None, choices = [], alias' = []\<rparr>)]
       None (Some 0)"

lemma inherited_name_examples:
  "run h version cloneCommand [] = HandlerCalled cloneCommand [] []"
  "run h version cloneCommand [''a'', ''--valueOf=y'', ''--__proto__=z''] =
     HandlerCalled cloneCommand [(''constructor'', VString ''a'')] [(''valueOf'', VString ''y'')]"
  by code_simp+

text \<open>
  Claim C1, at the input where the code departs from it. The command \<open>emit\<close> declares
  the required option \<open>out\<close>. On the empty argument vector the option stays unbound, and
  the run does not end with a missing-required error: the handler is called, with no
  option bound.
\<close>

theorem required_option_not_validated:
  "required outputOption \<and> run h version emit [] = HandlerCalled emit [] []"
  by (simp add: run_def resolve_def emit_def outputOption_def required_def isUndefined_def
      has_def includes'_def OBJECT_PROTOTYPE_def)

section \<open>The end-of-flags marker\<close>

text \<open>
  Claim C4, at the inputs where the code departs from it. After \<open>--\<close> a flag-shaped
  token is bound to the pending positional argument (\<open>--flag\<close> below), but \<open>--help\<close>
  and \<open>-v\<close> after \<open>--\<close> are still intercepted: the run prints the help or the version
  and binds nothing.
\<close>

theorem help_after_end_of_flags:
  "run h version openRequired [''--'', ''--help''] = HelpPrinted openRequired \<and>
   run h version openRequired [''--'', ''-v''] = VersionPrinted (Some ''open'') version \<and>
   run h version openRequired [''--'', ''--flag''] =
     HandlerCalled openRequired [(''file'', VString ''--flag'')] []"
  by code_simp

section \<open>Boolean options\<close>

text \<open>\<open>new Command('build').option('minify', { type: 'boolean', alias: ['m'],
  defaultValue: false })\<close>.\<close>

definition minifyOption :: CmdOption where
  "minifyOption =
     \<lparr>type = Some TBoolean, description = None, optional = False,
      defaultValue = Some (VBoolean False), choices = [], alias' = [''m'']\<rparr>"

definition build :: Command where
  "build = Command (Some ''build'') [] [] [] [(''minify'', minifyOption)] None (Some 0)"

text \<open>
  A boolean option given without an inline value binds \<open>true\<close>, or \<open>false\<close> for the
  negation form, and the loop continues with the very next token (the name of the option
  is not \<open>__proto__\<close>, and the prototype of \<open>options\<close> has not been replaced).
\<close>

lemma boolean_option_step:
  assumes "lookupOption (optionsDef cmd) k = Some (n, opt)" and "type opt = Some TBoolean"
    and "key p = Some k" and "value' p = None"
    and "n \<noteq> ''__proto__''" and "optionsProto st = None"
  shows "optionStep h cmd st p next =
           Continue (st\<lparr>options := AList.update n (VBoolean (\<not> isNegation p)) (options st)\<rparr>)"
proof -
  have "optionsDef cmd \<noteq> []"
    using assms(1) by (auto simp: lookupOption_def)
  moreover have "st\<lparr>options := own, optionsProto := None\<rparr> = st\<lparr>options := own\<rparr>" for own
    using assms(6) by (cases st) simp
  ultimately show ?thesis
    using assms by (simp add: optionStep_def bindOption_def assign_def)
qed

lemma boolean_option_examples:
  "run h version build [''--minify''] = HandlerCalled build [] [(''minify'', VBoolean True)]"
  "run h version build [''-m''] = HandlerCalled build [] [(''minify'', VBoolean True)]"
  "run h version build [''--no-minify''] = HandlerCalled build [] [(''minify'', VBoolean False)]"
  "run h version build [''--minify'', ''false''] =
     ErrorPrinted (CommandError
       (UnexpectedArgument ''false'' ''This command does not accept positional arguments.''))"
  by code_simp+

text \<open>
  Claim C6, at the inputs where the code departs from it. The inline form binds the text
  after \<open>=\<close> as it stands: \<open>--minify=false\<close> binds the string \<open>'false'\<close>, not the
  boolean that \<open>parseBoolean\<close> gives for it, and \<open>--minify=maybe\<close> binds the string
  \<open>'maybe'\<close>, although \<open>parseBoolean\<close> rejects it.
\<close>

theorem inline_boolean_bound_raw:
  "run h version build [''--minify=false''] =
     HandlerCalled build [] [(''minify'', VString ''false'')] \<and>
   parseBoolean ''false'' = Inr False \<and>
   run h version build [''--minify=maybe''] =
     HandlerCalled build [] [(''minify'', VString ''maybe'')] \<and>
   parseBoolean ''maybe'' = Inl (ParsingError (InvalidBoolean ''maybe''))"
  by code_simp

section \<open>Choice options\<close>

lemma flag_not_endOfFlags: "isFlag (parseToken raw) \<Longrightarrow> \<not> isEndOfFlags (parseToken raw)"
  by (simp add: parseToken_def positionalToken_def Let_def split: if_splits)

text \<open>\<open>new Command('paint').option('color', { type: 'choice', alias: ['c'],
  choices: ['red', 'green', 'blue'] })\<close>.\<close>

definition colorOption :: CmdOption where
  "colorOption =
     \<lparr>type = Some TChoice, description = None, optional = False, defaultValue = None,
      choices = [''red'', ''green'', ''blue''], alias' = [''c'']\<rparr>"

definition paint :: Command where
  "paint = Command (Some ''paint'') [] [] [] [(''color'', colorOption)] None (Some 0)"

text \<open>
  Claim C10. At any point of the token loop (flags not ended, no required positional
  pending), let the token be a flag without inline value whose key is not reserved and
  resolves, by name or alias, to an option of type choice, and let a following token
  \<open>v\<close> supply the value (the loop takes a non-empty token for one). Then the run ends
  with the coercion error \<open>Invalid choice: v\<close>, whose expected set is empty, whatever
  \<open>v\<close> and the declared choices are.
\<close>

theorem choice_value_in_next_token:
  assumes flag: "isFlag (parseToken raw)"
    and noinline: "value' (parseToken raw) = None"
    and k: "key (parseToken raw) = Some k"
    and notreserved: "k \<notin> {''version'', ''v'', ''help'', ''h''}"
    and flags: "\<not> endOfFlags st"
    and opt: "lookupOption (optionsDef cmd) k = Some (n, opt)"
    and ty: "type opt = Some TChoice"
    and pending: "positionalIndex st < length (argumentsDef cmd) \<Longrightarrow>
                    \<not> required (snd (argumentsDef cmd ! positionalIndex st))"
    and supplied: "v \<noteq> []"
  shows "scan h version cmd (raw # v # rest) st =
           Inl (ErrorPrinted (ParsingError (InvalidChoice v [])))"
proof -
  define out where "out = Stop (ErrorPrinted (ParsingError (InvalidChoice v [])))"
  have nonempty: "optionsDef cmd \<noteq> []"
    using opt by (auto simp: lookupOption_def)
  have coerce: "coerceOption h (ADefinition (type opt)) (VString v) [] =
        Inl (ParsingError (InvalidChoice v []))"
    by (simp add: coerceOption_def typeProperty_def parseRaw_def parseValue_def ty
          parseChoice_def includes'_def)
  have os: "optionStep h cmd st (parseToken raw) (Some v) = out"
    using nonempty coerce supplied by (simp add: optionStep_def k opt ty noinline out_def)
  have ap: "afterPositional h cmd st raw (parseToken raw) (Some v) = out"
    using flag flags os by (simp add: afterPositional_def)
  have "step h version cmd st raw (Some v) = out"
    using notreserved pending flag flags flag_not_endOfFlags [OF flag]
    by (auto simp: step_def Let_def k ap split: prod.splits)
  then show ?thesis by (simp add: out_def)
qed

theorem choice_value_in_next_token_witness:
  "scan sampleHost ''1.0.0'' paint [''--color'', ''red'']
     \<lparr>args = [], options = [], positionalIndex = 0, endOfFlags = False,
      argsProto = None, optionsProto = None\<rparr> =
     Inl (ErrorPrinted (ParsingError (InvalidChoice ''red'' [])))"
proof -
  have p: "parseToken ''--color'' =
             (positionalToken ''--color'')\<lparr>key := Some ''color'', isFlag := True\<rparr>"
    by code_simp
  show ?thesis
    using choice_value_in_next_token
        [of "''--color''" "''color''"
            "\<lparr>args = [], options = [], positionalIndex = 0, endOfFlags = False,
              argsProto = None, optionsProto = None\<rparr>"
            paint "''color''" colorOption "''red''" sampleHost "''1.0.0''" "[]"]
    by (simp add: p positionalToken_def paint_def lookupOption_def colorOption_def)
qed

text \<open>The same value in the inline form is accepted. An empty following token is taken
  for a missing value, before any coercion; the run ends with the \<open>TypeError\<close> that the
  construction of the error for the missing value throws.\<close>

lemma choice_option_examples:
  "run h version paint [''--color=red''] = HandlerCalled paint [] [(''color'', VString ''red'')]"
  "run h version paint [''-c'', ''red''] = ErrorPrinted (ParsingError (InvalidChoice ''red'' []))"
  "run h version paint [''--color'', []] = ErrorPrinted (TypeError ''items.map is not a function'')"
  by code_simp+

section \<open>Sizes and durations\<close>

text \<open>
  The text of a decimal literal with the digits \<open>ds\<close> before the point and, when \<open>fs\<close>
  is not empty, a point and the digits \<open>fs\<close> after it; \<open>decimalValue ds fs\<close> is its
  value.
\<close>

definition decimalLiteral :: "string \<Rightarrow> string \<Rightarrow> string" where
  "decimalLiteral ds fs = ds @ (if fs = [] then [] else CHR ''.'' # fs)"

definition isLetter :: "char \<Rightarrow> bool" where
  "isLetter c = (isLower c \<or> isUpper c)"

text \<open>Character classes, trimming and the greedy digit runs on such texts.\<close>

lemma digit_not_space: "isDigit c \<Longrightarrow> \<not> isSpace c"
  by (auto simp: isDigit_def isSpace_def)

lemma letter_not_space: "isLetter c \<Longrightarrow> \<not> isSpace c"
  by (auto simp: isLetter_def isLower_def isUpper_def isSpace_def)

lemma letter_not_digit: "isLetter c \<Longrightarrow> \<not> isDigit c"
  by (auto simp: isLetter_def isLower_def isUpper_def isDigit_def)

lemma letter_not_dot: "isLetter c \<Longrightarrow> c \<noteq> CHR ''.''"
  by (auto simp: isLetter_def isLower_def isUpper_def)

lemma dot_not_digit: "\<not> isDigit CHR ''.''"
  by (simp add: isDigit_def)

lemma trim_id: "s \<noteq> [] \<Longrightarrow> \<not> isSpace (hd s) \<Longrightarrow> \<not> isSpace (last s) \<Longrightarrow> trim s = s"
proof -
  assume a: "s \<noteq> []" "\<not> isSpace (hd s)" "\<not> isSpace (last s)"
  then have 1: "dropWhile isSpace s = s" by (cases s) auto
  from a have "rev s \<noteq> []" "\<not> isSpace (hd (rev s))" by (auto simp: hd_rev)
  then have "dropWhile isSpace (rev s) = rev s" by (cases "rev s") auto
  with 1 show ?thesis by (simp add: trim_def)
qed

lemma takeWhile_run:
  "list_all P xs \<Longrightarrow> r = [] \<or> \<not> P (hd r) \<Longrightarrow> takeWhile P (xs @ r) = xs"
  by (induction xs) (cases r; auto)+

lemma dropWhile_run:
  "list_all P xs \<Longrightarrow> r = [] \<or> \<not> P (hd r) \<Longrightarrow> dropWhile P (xs @ r) = r"
  by (induction xs) (cases r; auto)+

lemma numberPrefix_literal:
  assumes "ds \<noteq> []" "list_all isDigit ds" "list_all isDigit fs"
    and "r = [] \<or> (\<not> isDigit (hd r) \<and> hd r \<noteq> CHR ''.'')"
  shows "numberPrefix (decimalLiteral ds fs @ r) = Some (decimalLiteral ds fs, r)"
proof (cases "fs = []")
  case True
  have "takeWhile isDigit (ds @ r) = ds" "dropWhile isDigit (ds @ r) = r"
    using assms by (auto intro: takeWhile_run dropWhile_run)
  with True assms show ?thesis
    by (auto simp: numberPrefix_def decimalLiteral_def Let_def split: list.splits)
next
  case False
  have 1: "takeWhile isDigit (ds @ CHR ''.'' # fs @ r) = ds"
    "dropWhile isDigit (ds @ CHR ''.'' # fs @ r) = CHR ''.'' # fs @ r"
    using assms by (auto intro: takeWhile_run dropWhile_run simp: dot_not_digit)
  have 2: "takeWhile isDigit (fs @ r) = fs" "dropWhile isDigit (fs @ r) = r"
    using assms by (auto intro: takeWhile_run dropWhile_run)
  from False assms 1 2 show ?thesis
    by (simp add: numberPrefix_def decimalLiteral_def Let_def)
qed


lemma literal_nonempty: "ds \<noteq> [] \<Longrightarrow> decimalLiteral ds fs \<noteq> []"
  by (simp add: decimalLiteral_def)

lemma literal_hd: "ds \<noteq> [] \<Longrightarrow> hd (decimalLiteral ds fs @ r) = hd ds"
  by (simp add: decimalLiteral_def)

lemma literal_last:
  "ds \<noteq> [] \<Longrightarrow> list_all isDigit ds \<Longrightarrow> list_all isDigit fs \<Longrightarrow>
     isDigit (last (decimalLiteral ds fs))"
  by (auto simp: decimalLiteral_def list_all_iff)

lemma literal_chars:
  "list_all isDigit ds \<Longrightarrow> list_all isDigit fs \<Longrightarrow>
     list_all (\<lambda>c. isDigit c \<or> c = CHR ''.'') (decimalLiteral ds fs)"
  by (auto simp: decimalLiteral_def list_all_iff)

text \<open>\<open>Number\<close> reads a decimal literal as its value.\<close>

lemma literal_char_no_radix: "isDigit c \<or> c = CHR ''.'' \<Longrightarrow> c \<notin> set ''xXoObB''"
  by (auto simp: isDigit_def)

lemma nonDecimal_literal:
  assumes "list_all (\<lambda>c. isDigit c \<or> c = CHR ''.'') s"
  shows "nonDecimalLiteral s = None"
proof (cases s)
  case Nil
  then show ?thesis by (simp add: nonDecimalLiteral_def)
next
  case outer: (Cons c0 r0)
  show ?thesis
  proof (cases r0)
    case Nil
    with outer show ?thesis by (simp add: nonDecimalLiteral_def)
  next
    case (Cons c1 r1)
    have "isDigit c1 \<or> c1 = CHR ''.''" using assms outer Cons by simp
    then have "c1 \<notin> set ''xXoObB''" by (rule literal_char_no_radix)
    then have "c1 \<notin> set ''xX''" "c1 \<notin> set ''oO''" "c1 \<notin> set ''bB''" by auto
    with outer Cons show ?thesis
      by (cases r1) (simp_all add: nonDecimalLiteral_def del: set_simps)
  qed
qed

lemma Number_literal:
  assumes ds: "ds \<noteq> []" "list_all isDigit ds" and fs: "list_all isDigit fs"
  shows "Number (decimalLiteral ds fs) = fromRat (decimalValue ds fs)"
proof -
  let ?s = "decimalLiteral ds fs"
  have hd: "isDigit (hd ?s)" using ds by (cases ds) (auto simp: decimalLiteral_def)
  have t: "trim ?s = ?s"
    using literal_last [OF ds fs] hd literal_nonempty [OF ds(1)]
    by (intro trim_id) (auto dest: digit_not_space)
  have nd: "nonDecimalLiteral ?s = None"
    using literal_chars [OF ds(2) fs] by (rule nonDecimal_literal)
  have sign: "hd ?s \<noteq> CHR ''-''" "hd ?s \<noteq> CHR ''+''" "?s \<noteq> ''Infinity''"
  proof -
    show "hd ?s \<noteq> CHR ''-''" "hd ?s \<noteq> CHR ''+''"
      using hd by (auto simp: isDigit_def)
    show "?s \<noteq> ''Infinity''"
    proof
      assume "?s = ''Infinity''"
      then have "hd ?s = CHR ''I''" by simp
      with hd show False by (simp add: isDigit_def)
    qed
  qed
  have np: "numberPrefix (?s @ []) = Some (?s, [])"
    using ds fs by (intro numberPrefix_literal) auto
  have u: "unsignedDecimal ?s = fromRat (decimalValue ds fs)"
  proof (cases "fs = []")
    case True
    have 0: "takeWhile isDigit ds = ds" "dropWhile isDigit ds = []"
      using ds takeWhile_run [of isDigit ds "[]"] dropWhile_run [of isDigit ds "[]"] by auto
    have "unsignedDecimal ds = fromRat (decimalValue ds [])"
      using sign(3) True ds(1)
      by (simp add: unsignedDecimal_def decimalLiteral_def Let_def exponentPart_def scale10_def 0)
    with True show ?thesis by (simp add: decimalLiteral_def)
  next
    case False
    have 1: "takeWhile isDigit (ds @ CHR ''.'' # fs) = ds"
      "dropWhile isDigit (ds @ CHR ''.'' # fs) = CHR ''.'' # fs"
      using ds takeWhile_run [of isDigit ds "CHR ''.'' # fs"]
        dropWhile_run [of isDigit ds "CHR ''.'' # fs"] by (auto simp: dot_not_digit)
    have 2: "takeWhile isDigit fs = fs" "dropWhile isDigit fs = []"
      using fs takeWhile_run [of isDigit fs "[]"] dropWhile_run [of isDigit fs "[]"] by auto
    have "unsignedDecimal (ds @ CHR ''.'' # fs) = fromRat (decimalValue ds fs)"
      using sign(3) False ds(1)
      by (simp add: unsignedDecimal_def decimalLiteral_def Let_def exponentPart_def scale10_def
          1 2)
    with False show ?thesis by (simp add: decimalLiteral_def)
  qed
  show ?thesis
    using t nd sign u literal_nonempty [OF ds(1)] by (simp add: Number_def Let_def)
qed

subsection \<open>Rounding\<close>

text \<open>The exponent that \<open>fromRat\<close> finds for a positive number is that of the binade
  the number lies in, kept within the range of the exponents of the doubles.\<close>

lemma expoUp_bounds:
  "1 \<le> x \<Longrightarrow> e \<le> 1024 \<Longrightarrow>
     e \<le> expoUp x e \<and> expoUp x e \<le> 1024 \<and> 2 powi (expoUp x e - e) \<le> x \<and>
     (expoUp x e < 1024 \<longrightarrow> x < 2 powi (expoUp x e - e + 1))"
proof (induction x e rule: expoUp.induct)
  case (1 x e)
  show ?case
  proof (cases "2 \<le> x \<and> e < 1024")
    case True
    then have r: "expoUp x e = expoUp (x / 2) (e + 1)" by (subst expoUp.simps) simp
    from True 1 have ih: "e + 1 \<le> expoUp (x / 2) (e + 1) \<and> expoUp (x / 2) (e + 1) \<le> 1024 \<and>
        2 powi (expoUp (x / 2) (e + 1) - (e + 1)) \<le> x / 2 \<and>
        (expoUp (x / 2) (e + 1) < 1024 \<longrightarrow> x / 2 < 2 powi (expoUp (x / 2) (e + 1) - (e + 1) + 1))"
      by simp
    define k where "k = expoUp (x / 2) (e + 1) - (e + 1)"
    have k1: "expoUp (x / 2) (e + 1) - e = k + 1" by (simp add: k_def)
    have p: "(2::rat) powi (k + 1) = 2 * 2 powi k" by (simp add: power_int_add_1')
    have p2: "(2::rat) powi (k + 1 + 1) = 2 * 2 powi (k + 1)" by (rule power_int_add_1') simp
    from ih show ?thesis
      unfolding r k1 unfolding k_def [symmetric] p2 by (auto simp: p)
  next
    case False
    then have r: "expoUp x e = e" by (subst expoUp.simps) auto
    from False 1 show ?thesis unfolding r by auto
  qed
qed

lemma expoDown_bounds:
  "0 < x \<Longrightarrow> x < 2 \<Longrightarrow> - 1022 \<le> e \<Longrightarrow>
     - 1022 \<le> expoDown x e \<and> expoDown x e \<le> e \<and> x < 2 powi (expoDown x e - e + 1) \<and>
     (- 1022 < expoDown x e \<longrightarrow> 2 powi (expoDown x e - e) \<le> x)"
proof (induction x e rule: expoDown.induct)
  case (1 x e)
  show ?case
  proof (cases "x < 1 \<and> - 1022 < e")
    case True
    then have r: "expoDown x e = expoDown (2 * x) (e - 1)" by (subst expoDown.simps) simp
    from True 1 have ih: "- 1022 \<le> expoDown (2 * x) (e - 1) \<and> expoDown (2 * x) (e - 1) \<le> e - 1 \<and>
        2 * x < 2 powi (expoDown (2 * x) (e - 1) - (e - 1) + 1) \<and>
        (- 1022 < expoDown (2 * x) (e - 1) \<longrightarrow> 2 powi (expoDown (2 * x) (e - 1) - (e - 1)) \<le> 2 * x)"
      by simp
    define k where "k = expoDown (2 * x) (e - 1) - e"
    have k1: "expoDown (2 * x) (e - 1) - (e - 1) = k + 1" by (simp add: k_def)
    have p: "(2::rat) powi (k + 1) = 2 * 2 powi k" by (simp add: power_int_add_1')
    have p2: "(2::rat) powi (k + 1 + 1) = 2 * 2 powi (k + 1)" by (rule power_int_add_1') simp
    from ih show ?thesis
      unfolding r k1 p2 unfolding k_def [symmetric] by (auto simp: p)
  next
    case False
    then have r: "expoDown x e = e" by (subst expoDown.simps) auto
    from False 1 show ?thesis unfolding r by auto
  qed
qed

lemma exponent_bounds:
  assumes "0 < x"
  shows "- 1022 \<le> exponent x \<and> exponent x \<le> 1024 \<and>
         (exponent x < 1024 \<longrightarrow> x < 2 powi (exponent x + 1)) \<and>
         (- 1022 < exponent x \<longrightarrow> 2 powi exponent x \<le> x)"
proof (cases "1 \<le> x")
  case True
  with expoUp_bounds [of x 0] show ?thesis by (auto simp: exponent_def)
next
  case False
  with assms expoDown_bounds [of x 0] show ?thesis by (auto simp: exponent_def)
qed

lemma pow2_mono: "a \<le> b \<Longrightarrow> (2::rat) powi a \<le> 2 powi b"
  by (rule power_int_increasing) simp_all

lemma exponent_eq:
  assumes x: "2 powi e \<le> x" "x < 2 powi (e + 1)" and e: "- 1022 \<le> e" "e < 1024"
  shows "exponent x = e"
proof -
  have pos: "0 < x" using x(1) by (rule less_le_trans [rotated]) simp
  note b = exponent_bounds [OF pos]
  have le: "exponent x \<le> e"
  proof (rule ccontr)
    assume "\<not> exponent x \<le> e"
    then have g: "e + 1 \<le> exponent x" by simp
    with e have "- 1022 < exponent x" by simp
    with b have "2 powi exponent x \<le> x" by simp
    with pow2_mono [OF g] x(2) show False by simp
  qed
  have ge: "e \<le> exponent x"
  proof (rule ccontr)
    assume "\<not> e \<le> exponent x"
    then have g: "exponent x + 1 \<le> e" by simp
    with e have "exponent x < 1024" by simp
    with b have "x < 2 powi (exponent x + 1)" by simp
    with pow2_mono [OF g] x(1) show False by simp
  qed
  from le ge show ?thesis by simp
qed

lemma roundHalfEven_of_int: "roundHalfEven (of_int k) = k"
  by (simp add: roundHalfEven_def)

lemma roundHalfEven_le: "roundHalfEven q \<le> \<lfloor>q\<rfloor> + 1"
  by (simp add: roundHalfEven_def Let_def)

lemma floor_rat_numeral: "\<lfloor>numeral a / numeral b :: rat\<rfloor> = numeral a div numeral b"
  using floor_divide_of_int_eq [of "numeral a" "numeral b", where ?'a = rat] by simp

text \<open>A number from \<open>2^1024\<close> on is rounded to \<open>Infinity\<close>.\<close>

lemma exponent_overflow: "2 ^ 1024 \<le> x \<Longrightarrow> exponent x = 1024"
proof -
  assume a: "2 ^ 1024 \<le> x"
  then have pos: "0 < x" by (rule less_le_trans [rotated]) simp
  note b = exponent_bounds [OF pos]
  show ?thesis
  proof (rule ccontr)
    assume "exponent x \<noteq> 1024"
    with b have l: "exponent x < 1024" and u: "x < 2 powi (exponent x + 1)" by auto
    from l have "exponent x + 1 \<le> 1024" by simp
    from pow2_mono [OF this] have "(2::rat) powi (exponent x + 1) \<le> 2 ^ 1024" by simp
    with u a show False by simp
  qed
qed

lemma fromRat_overflow:
  assumes "2 ^ 1024 \<le> x"
  shows "fromRat x = PosInfinity"
proof -
  have pos: "0 < x" using assms by (rule less_le_trans [rotated]) simp
  have e: "exponent x = 1024" using assms by (rule exponent_overflow)
  have u: "(2::rat) powi (1024 - 52) = 2 ^ 972" by simp
  from assms have "(2::rat) ^ 52 * 2 ^ 972 \<le> x" by simp
  then have q: "(2::rat) ^ 52 \<le> x / 2 ^ 972" by (subst pos_le_divide_eq) simp_all
  have "of_int (2 ^ 52) \<le> x / 2 ^ 972" using q by simp
  then have f: "2 ^ 52 \<le> \<lfloor>x / 2 ^ 972\<rfloor>" by (simp only: le_floor_iff)
  have r: "\<lfloor>x / 2 ^ 972\<rfloor> \<le> roundHalfEven (x / 2 ^ 972)"
    by (simp add: roundHalfEven_def Let_def)
  from f r have "(2::int) ^ 52 \<le> roundHalfEven (x / 2 ^ 972)" by (rule order_trans)
  then have "(of_int (2 ^ 52) :: rat) \<le> of_int (roundHalfEven (x / 2 ^ 972))"
    by (simp only: of_int_le_iff)
  then have "(2::rat) ^ 52 * 2 ^ 972 \<le> of_int (roundHalfEven (x / 2 ^ 972)) * 2 ^ 972"
    by (intro mult_right_mono) simp_all
  then have "(2::rat) ^ 1024 \<le> of_int (roundHalfEven (x / 2 ^ 972)) * 2 ^ 972"
    by simp
  then show ?thesis
    using pos unfolding fromRat_def roundPositive_def Let_def e u by simp
qed

text \<open>The rounding of a number of a known binade, for the evaluation of \<open>fromRat\<close> on a
  given number.\<close>

lemma fromRat_binade:
  assumes x: "2 powi e \<le> x" "x < 2 powi (e + 1)" and e: "- 1022 \<le> e" "e < 1023"
  shows "fromRat x = Finite (of_int (roundHalfEven (x / 2 powi (e - 52))) * 2 powi (e - 52))"
proof -
  have pos: "0 < x" using x(1) by (rule less_le_trans [rotated]) simp
  have ex: "exponent x = e" using x e by (intro exponent_eq) simp_all
  define ulp :: rat where "ulp = 2 powi (e - 52)"
  have up: "0 < ulp" by (simp add: ulp_def)
  have "ulp * 2 ^ 53 = 2 powi (e - 52) * 2 powi 53" by (simp add: ulp_def)
  also have "\<dots> = 2 powi (e - 52 + 53)" by (rule power_int_add [symmetric]) simp
  finally have top: "ulp * 2 ^ 53 = 2 powi (e + 1)" by (simp add: add.commute)
  have "x / ulp < 2 ^ 53"
    using x(2) up by (simp add: pos_divide_less_eq top [symmetric] mult.commute)
  then have "x / ulp < of_int (2 ^ 53)" by simp
  then have "\<lfloor>x / ulp\<rfloor> < 2 ^ 53" by (simp only: floor_less_iff)
  then have "\<lfloor>x / ulp\<rfloor> + 1 \<le> 2 ^ 53" by linarith
  with roundHalfEven_le [of "x / ulp"] have "roundHalfEven (x / ulp) \<le> 2 ^ 53"
    by (rule order_trans)
  then have "(of_int (roundHalfEven (x / ulp)) :: rat) \<le> of_int (2 ^ 53)"
    by (simp only: of_int_le_iff)
  then have "of_int (roundHalfEven (x / ulp)) * ulp \<le> of_int (2 ^ 53) * ulp"
    using up by (intro mult_right_mono) simp_all
  also have "\<dots> = 2 powi (e + 1)" using top by (simp add: mult.commute)
  also have "\<dots> \<le> 2 powi 1023" using e by (intro pow2_mono) simp
  also have "\<dots> < 2 ^ 1024" by simp
  finally have "\<not> 2 ^ 1024 \<le> of_int (roundHalfEven (x / ulp)) * ulp" by simp
  then show ?thesis
    using pos unfolding fromRat_def roundPositive_def Let_def ex ulp_def [symmetric] by simp
qed

text \<open>The whole numbers up to \<open>2^53\<close> are doubles: rounding leaves them as they are,
  and so the sums and products of whole numbers that stay in this range are exact.\<close>

lemma fromRat_int:
  assumes "x \<in> \<int>" "0 \<le> x" "x \<le> 2 ^ 53"
  shows "fromRat x = Finite x"
proof (cases "x = 0")
  case True
  then show ?thesis by (simp add: fromRat_def)
next
  case False
  from assms(1) obtain m :: int where m: "x = of_int m" by (auto elim: Ints_cases)
  with False assms(2) have "0 < m" by simp
  then have "1 \<le> m" by simp
  then have x1: "1 \<le> x" unfolding m by simp
  then have pos: "0 < x" by simp
  define e where "e = exponent x"
  from expoUp_bounds [of x 0] x1 have e0: "0 \<le> e" and lo: "2 powi e \<le> x"
    by (simp_all add: e_def exponent_def)
  have e53: "e \<le> 53"
  proof (rule ccontr)
    assume "\<not> e \<le> 53"
    then have "54 \<le> e" by simp
    from pow2_mono [OF this] have "(2::rat) ^ 54 \<le> 2 powi e" by simp
    with lo assms(3) show False by simp
  qed
  have y: "of_int (roundHalfEven (x / 2 powi (e - 52))) * 2 powi (e - 52) = x"
  proof (cases "e = 53")
    case True
    with lo assms(3) have "x = 2 ^ 53" by simp
    then have q: "x / 2 powi (e - 52) = of_int (2 ^ 52)" using True by simp
    show ?thesis unfolding q roundHalfEven_of_int using True \<open>x = 2 ^ 53\<close> by simp
  next
    case False
    with e53 have le: "e \<le> 52" by simp
    define k where "k = nat (52 - e)"
    have ek: "e - 52 = - int k" using le by (simp add: k_def)
    have u: "(2::rat) powi (e - 52) = 1 / 2 ^ k"
      unfolding ek by (simp add: power_int_minus field_simps)
    have q: "x / 2 powi (e - 52) = of_int (m * 2 ^ k)" unfolding u m by simp
    show ?thesis unfolding q roundHalfEven_of_int unfolding u m by simp
  qed
  have "x < 2 ^ 1024"
  proof -
    have "(2::rat) ^ 53 < 2 ^ 1024" by simp
    with assms(3) show ?thesis by (rule le_less_trans)
  qed
  then show ?thesis
    using pos False unfolding fromRat_def roundPositive_def Let_def e_def [symmetric] y by simp
qed

lemma jsTimes_int:
  assumes "x \<in> \<int>" "y \<in> \<int>" "0 \<le> x" "0 \<le> y" "x * y \<le> 2 ^ 53"
  shows "jsTimes (Finite x) (Finite y) = Finite (x * y)"
  using assms by (simp add: jsTimes_def fromRat_int)

lemma jsPlus_int:
  assumes "x \<in> \<int>" "y \<in> \<int>" "0 \<le> x" "0 \<le> y" "x + y \<le> 2 ^ 53"
  shows "jsPlus (Finite x) (Finite y) = Finite (x + y)"
  using assms by (simp add: jsPlus_def fromRat_int)

lemma decimalValue_nonneg: "0 \<le> decimalValue ds fs"
  by (simp add: decimalValue_def)

lemma decimalValue_whole: "decimalValue ds [] = of_nat (digitsValue ds)"
  by (simp add: decimalValue_def digitsValue_def)

text \<open>Three roundings, evaluated: the double next to \<open>1.1\<close>, the product of that double
  and \<open>3600000\<close>, and a whole number above \<open>2^53\<close>.\<close>

lemma rounding_examples:
  "fromRat (11 / 10) = Finite (4953959590107546 / 2 ^ 52)"
  "fromRat (4953959590107546 / 2 ^ 52 * 3600000) = Finite (3960000 + 1 / 2 ^ 31)"
  "fromRat (3960000 + 1 / 2 ^ 31) = Finite (3960000 + 1 / 2 ^ 31)"
  "fromRat 9007199254740993 = Finite 9007199254740992"
proof -
  have "fromRat (11 / 10) =
      Finite (of_int (roundHalfEven ((11 / 10) / 2 powi (0 - 52))) * 2 powi (0 - 52))"
    by (rule fromRat_binade) simp_all
  then show "fromRat (11 / 10) = Finite (4953959590107546 / 2 ^ 52)"
    by (simp add: roundHalfEven_def Let_def floor_rat_numeral)
  have "fromRat (4953959590107546 / 2 ^ 52 * 3600000) =
      Finite (of_int (roundHalfEven ((4953959590107546 / 2 ^ 52 * 3600000) / 2 powi (21 - 52)))
                * 2 powi (21 - 52))"
    by (rule fromRat_binade) simp_all
  then show "fromRat (4953959590107546 / 2 ^ 52 * 3600000) = Finite (3960000 + 1 / 2 ^ 31)"
    by (simp add: roundHalfEven_def Let_def floor_rat_numeral)
  have "fromRat (3960000 + 1 / 2 ^ 31) =
      Finite (of_int (roundHalfEven ((3960000 + 1 / 2 ^ 31) / 2 powi (21 - 52)))
                * 2 powi (21 - 52))"
    by (rule fromRat_binade) simp_all
  then show "fromRat (3960000 + 1 / 2 ^ 31) = Finite (3960000 + 1 / 2 ^ 31)"
    by (simp add: roundHalfEven_def Let_def floor_rat_numeral)
  have "fromRat 9007199254740993 =
      Finite (of_int (roundHalfEven (9007199254740993 / 2 powi (53 - 52))) * 2 powi (53 - 52))"
    by (rule fromRat_binade) simp_all
  then show "fromRat 9007199254740993 = Finite 9007199254740992"
    by (simp add: roundHalfEven_def Let_def floor_rat_numeral)
qed

text \<open>\<open>Number\<close> on a whole number above \<open>2^53\<close> and on \<open>1.1\<close>.\<close>

lemma Number_examples:
  "Number ''9007199254740993'' = Finite 9007199254740992"
  "Number ''1.1'' = Finite (4953959590107546 / 2 ^ 52)"
proof -
  have d: "''9007199254740993'' \<noteq> []" "list_all isDigit ''9007199254740993''"
    "''1'' \<noteq> []" "list_all isDigit ''1''" "list_all isDigit []"
    by (simp_all add: isDigit_def)
  have v: "decimalValue ''9007199254740993'' [] = 9007199254740993"
    "decimalValue ''1'' ''1'' = 11 / 10"
    by (simp_all add: decimalValue_def digitsValue_def digitVal_def)
  show "Number ''9007199254740993'' = Finite 9007199254740992"
    using Number_literal [OF d(1,2,5)] by (simp add: decimalLiteral_def v rounding_examples)
  show "Number ''1.1'' = Finite (4953959590107546 / 2 ^ 52)"
    using Number_literal [OF d(3,4,4)] by (simp add: decimalLiteral_def v rounding_examples)
qed

subsection \<open>Sizes\<close>

lemma lowerChar_letter: "isLower (lowerChar c) \<Longrightarrow> isLetter c"
  by (auto simp: lowerChar_def isLetter_def split: if_splits)

lemma unit_letters:
  assumes "includes' SIZE_UNITS (toLowerCase u)"
  shows "u \<noteq> [] \<and> list_all isLetter u"
proof -
  have "list_all isLower (toLowerCase u)" "toLowerCase u \<noteq> []"
    using assms by (auto simp: includes'_def SIZE_UNITS_def isLower_def)
  then show ?thesis
    by (auto simp: toLowerCase_def list_all_iff intro: lowerChar_letter)
qed

lemma literal_unit_trim:
  assumes "ds \<noteq> []" "list_all isDigit ds" "list_all isDigit fs" "list_all isLetter u"
  shows "trim (decimalLiteral ds fs @ u) = decimalLiteral ds fs @ u"
proof (rule trim_id)
  show "decimalLiteral ds fs @ u \<noteq> []" using assms by (simp add: decimalLiteral_def)
  show "\<not> isSpace (hd (decimalLiteral ds fs @ u))"
    using assms by (cases ds) (auto simp: decimalLiteral_def dest: digit_not_space)
  show "\<not> isSpace (last (decimalLiteral ds fs @ u))"
  proof (cases "u = []")
    case True
    with literal_last [OF assms(1-3)] show ?thesis by (auto dest: digit_not_space)
  next
    case False
    with assms(4) have "isLetter (last u)" by (auto simp: list_all_iff)
    with False show ?thesis by (auto dest: letter_not_space)
  qed
qed

lemma sizeMatch_literal:
  assumes "ds \<noteq> []" "list_all isDigit ds" "list_all isDigit fs" "list_all isLetter u"
  shows "sizeMatch (decimalLiteral ds fs @ u) =
           (if includes' SIZE_UNITS (toLowerCase u) then Some (decimalLiteral ds fs, u) else None)"
proof -
  have "u = [] \<or> (\<not> isDigit (hd u) \<and> hd u \<noteq> CHR ''.'')"
    using assms(4) by (cases u) (auto dest: letter_not_digit letter_not_dot)
  then have "numberPrefix (decimalLiteral ds fs @ u) = Some (decimalLiteral ds fs, u)"
    using assms by (intro numberPrefix_literal)
  then show ?thesis by (simp add: sizeMatch_def)
qed

lemma numberPrefix_no_digit: "s \<noteq> [] \<Longrightarrow> \<not> isDigit (hd s) \<Longrightarrow> numberPrefix s = None"
  by (cases s) (simp_all add: numberPrefix_def)

text \<open>
  What holds of the coercion of byte sizes. Let \<open>ds\<close> be a non-empty string of digits
  and \<open>fs\<close> a string of digits (the fraction, possibly absent). If the unit \<open>u\<close> is,
  up to the case of its letters, the \<open>k\<close>-th of \<open>b, kb, mb, gb, tb, pb\<close> (counting
  from 0), the size made from the text of the number followed by \<open>u\<close> has the value of
  the number, as a double, times \<open>1024 ^ k\<close> in the arithmetic of the doubles (for the
  unit \<open>b\<close> the number itself). If \<open>u\<close> is a string of letters that is none of these
  units (the empty string when the unit is missing), the coercion fails with the parsing
  error \<open>Invalid Size format\<close>; and so it does on every non-blank input that does not
  start with a digit after trimming, where the number is missing or is not a decimal
  literal (\<open>Infinity\<close>, \<open>NaN\<close>, a signed number).
\<close>

lemma size_coercion:
  assumes ds: "ds \<noteq> []" "list_all isDigit ds" and fs: "list_all isDigit fs"
  shows "(k < length SIZE_UNITS \<and> toLowerCase u = SIZE_UNITS ! k \<longrightarrow>
            Size_new (decimalLiteral ds fs @ u) =
              Inr (VSize (decimalLiteral ds fs @ u)
                     (if k = 0 then fromRat (decimalValue ds fs)
                      else jsTimes (fromRat (decimalValue ds fs)) (Finite (1024 ^ k))))) \<and>
         (list_all isLetter u \<and> \<not> includes' SIZE_UNITS (toLowerCase u) \<longrightarrow>
            Size_new (decimalLiteral ds fs @ u) =
              Inl (ParsingError (InvalidSizeFormat (decimalLiteral ds fs @ u)))) \<and>
         (trim input \<noteq> [] \<and> \<not> isDigit (hd (trim input)) \<longrightarrow>
            Size_new input = Inl (ParsingError (InvalidSizeFormat input)))"
proof (intro conjI impI)
  assume a: "k < length SIZE_UNITS \<and> toLowerCase u = SIZE_UNITS ! k"
  then have inc: "includes' SIZE_UNITS (toLowerCase u)" by (simp add: includes'_def)
  then have u: "u \<noteq> []" "list_all isLetter u" using unit_letters by auto
  have t: "trim (decimalLiteral ds fs @ u) = decimalLiteral ds fs @ u"
    using ds fs u by (intro literal_unit_trim)
  have m: "sizeMatch (decimalLiteral ds fs @ u) = Some (decimalLiteral ds fs, u)"
    using sizeMatch_literal [OF ds fs u(2)] inc by simp
  have n: "Number (decimalLiteral ds fs) = fromRat (decimalValue ds fs)"
    using ds fs by (rule Number_literal)
  have pb: "parseToBytes (decimalLiteral ds fs @ u) =
              Inr (if k = 0 then fromRat (decimalValue ds fs)
                   else jsTimes (fromRat (decimalValue ds fs)) (Finite (1024 ^ k)))"
    if "toLowerCase u = w" and "w = SIZE_UNITS ! k" and "k < 6" for w
  proof -
    from that(3) consider "k = 0" | "k = 1" | "k = 2" | "k = 3" | "k = 4" | "k = 5"
      by linarith
    then show ?thesis
      using that(1,2)
      by cases (simp_all add: parseToBytes_def t m n SIZE_UNITS_def)
  qed
  have "parseToBytes (decimalLiteral ds fs @ u) =
          Inr (if k = 0 then fromRat (decimalValue ds fs)
               else jsTimes (fromRat (decimalValue ds fs)) (Finite (1024 ^ k)))"
    using a by (intro pb [of "toLowerCase u"]) (simp_all add: SIZE_UNITS_def)
  then show "Size_new (decimalLiteral ds fs @ u) =
      Inr (VSize (decimalLiteral ds fs @ u)
             (if k = 0 then fromRat (decimalValue ds fs)
              else jsTimes (fromRat (decimalValue ds fs)) (Finite (1024 ^ k))))"
    using literal_nonempty [OF ds(1), of fs] by (simp add: Size_new_def t)
next
  assume a: "list_all isLetter u \<and> \<not> includes' SIZE_UNITS (toLowerCase u)"
  have t: "trim (decimalLiteral ds fs @ u) = decimalLiteral ds fs @ u"
    using ds fs a by (intro literal_unit_trim) auto
  have m: "sizeMatch (decimalLiteral ds fs @ u) = None"
    using sizeMatch_literal [OF ds fs] a by simp
  show "Size_new (decimalLiteral ds fs @ u) =
      Inl (ParsingError (InvalidSizeFormat (decimalLiteral ds fs @ u)))"
    using literal_nonempty [OF ds(1), of fs] by (simp add: Size_new_def parseToBytes_def t m)
next
  assume a: "trim input \<noteq> [] \<and> \<not> isDigit (hd (trim input))"
  then have "sizeMatch (trim input) = None"
    by (simp add: sizeMatch_def numberPrefix_no_digit)
  with a show "Size_new input = Inl (ParsingError (InvalidSizeFormat input))"
    by (simp add: Size_new_def parseToBytes_def)
qed

text \<open>For a whole number \<open>n\<close> with \<open>n * 1024 ^ k\<close> at most \<open>2^53\<close> no rounding
  occurs, and the value of the size is \<open>n * 1024 ^ k\<close>.\<close>

lemma size_whole:
  assumes ds: "ds \<noteq> []" "list_all isDigit ds"
    and k: "k < length SIZE_UNITS" "toLowerCase u = SIZE_UNITS ! k"
    and r: "of_nat (digitsValue ds) * 1024 ^ k \<le> (2::rat) ^ 53"
  shows "Size_new (ds @ u) = Inr (VSize (ds @ u) (Finite (of_nat (digitsValue ds) * 1024 ^ k)))"
proof -
  define n :: rat where "n = of_nat (digitsValue ds)"
  have n: "n \<in> \<int>" "0 \<le> n" by (simp_all add: n_def)
  have "n * 1 \<le> n * 1024 ^ k" using n(2) by (intro mult_left_mono) simp_all
  with r have le: "n \<le> 2 ^ 53" by (simp add: n_def)
  have f: "fromRat n = Finite n" using n le by (rule fromRat_int)
  have p: "jsTimes (Finite n) (Finite (1024 ^ k)) = Finite (n * 1024 ^ k)"
    using n r by (intro jsTimes_int) (simp_all add: n_def)
  have "Size_new (decimalLiteral ds [] @ u) =
          Inr (VSize (decimalLiteral ds [] @ u)
                 (if k = 0 then fromRat (decimalValue ds [])
                  else jsTimes (fromRat (decimalValue ds [])) (Finite (1024 ^ k))))"
    using size_coercion [OF ds, of "[]" k u] k by simp
  then show ?thesis
    by (simp add: decimalLiteral_def decimalValue_whole n_def [symmetric] f p)
qed

lemma size_coercion_examples:
  "Size_new ''10kb'' = Inr (VSize ''10kb'' (Finite 10240)) \<and>
   Size_new ''10KB'' = Inr (VSize ''10KB'' (Finite 10240)) \<and>
   Size_new ''10'' = Inl (ParsingError (InvalidSizeFormat ''10'')) \<and>
   Size_new ''Infinitykb'' = Inl (ParsingError (InvalidSizeFormat ''Infinitykb''))"
proof -
  have d: "''10'' \<noteq> []" "list_all isDigit ''10''" "list_all isDigit []"
    by (simp_all add: isDigit_def)
  have v: "digitsValue ''10'' = 10"
    by (simp add: digitsValue_def digitVal_def)
  have u: "1 < length SIZE_UNITS" "toLowerCase ''kb'' = SIZE_UNITS ! 1"
    "toLowerCase ''KB'' = SIZE_UNITS ! 1"
    by code_simp+
  have r: "of_nat (digitsValue ''10'') * 1024 ^ 1 \<le> (2::rat) ^ 53"
    by (simp add: v)
  have n: "list_all isLetter [] \<and> \<not> includes' SIZE_UNITS (toLowerCase [])"
    by (simp add: SIZE_UNITS_def toLowerCase_def includes'_def)
  have i: "trim ''Infinitykb'' \<noteq> [] \<and> \<not> isDigit (hd (trim ''Infinitykb''))"
    by (simp add: trim_def isSpace_def isDigit_def)
  show ?thesis
    using size_whole [OF d(1,2) u(1,2) r] size_whole [OF d(1,2) u(1,3) r]
          size_coercion [OF d, of 0 "[]" "''Infinitykb''"] n i
    by (simp add: decimalLiteral_def v)
qed

text \<open>A blank input is rejected before the format is looked at, with a \<open>TypeError\<close>.\<close>

lemma size_blank: "trim input = [] \<Longrightarrow> Size_new input = Inl (TypeError ''Size must be a non-empty string'')"
  by (simp add: Size_new_def)

text \<open>A number of 310 digits, beyond the range of the doubles.\<close>

definition hugeDigits :: string where
  "hugeDigits = CHR ''1'' # replicate 309 CHR ''0''"

lemma digitsValue_snoc: "digitsValue (ds @ [c]) = 10 * digitsValue ds + digitVal c"
  by (simp add: digitsValue_def)

lemma digitsValue_zeros: "digitsValue (ds @ replicate n CHR ''0'') = digitsValue ds * 10 ^ n"
proof (induction n)
  case 0
  show ?case by simp
next
  case (Suc n)
  have "ds @ replicate (Suc n) CHR ''0'' = (ds @ replicate n CHR ''0'') @ [CHR ''0'']"
    by (simp add: replicate_append_same)
  then have "digitsValue (ds @ replicate (Suc n) CHR ''0'') =
               10 * digitsValue (ds @ replicate n CHR ''0'') + digitVal CHR ''0''"
    by (simp only: digitsValue_snoc)
  with Suc show ?case by (simp add: digitVal_def)
qed

lemma hugeDigits_value: "decimalValue hugeDigits [] = 10 ^ 309"
proof -
  have "digitsValue (''1'' @ replicate 309 CHR ''0'') = digitsValue ''1'' * 10 ^ 309"
    by (rule digitsValue_zeros)
  then show ?thesis
    by (simp add: decimalValue_def hugeDigits_def digitsValue_def digitVal_def)
qed

lemma hugeDigits_overflow: "Number hugeDigits = PosInfinity"
proof -
  have d: "hugeDigits \<noteq> []" "list_all isDigit hugeDigits" "list_all isDigit []"
    by (simp_all add: hugeDigits_def isDigit_def list_all_iff)
  have "Number (decimalLiteral hugeDigits []) = fromRat (decimalValue hugeDigits [])"
    using d by (rule Number_literal)
  moreover have "(2::rat) ^ 1024 \<le> 10 ^ 309"
    by simp
  ultimately show ?thesis
    by (simp add: decimalLiteral_def hugeDigits_value fromRat_overflow)
qed

text \<open>
  Claim C8, at the input where the code departs from it. The size string made of the
  digit 1, 309 zeros and the unit \<open>b\<close> has a number that is not finite: \<open>Number\<close>
  gives \<open>Infinity\<close> for it. The coercion does not fail on it; it returns a size whose
  value is \<open>Infinity\<close>, while \<open>Size.isValid\<close> rejects the same string.
\<close>

theorem size_overflow_not_rejected:
  "Size_new (hugeDigits @ ''b'') = Inr (VSize (hugeDigits @ ''b'') PosInfinity) \<and>
   \<not> Size_isValid (hugeDigits @ ''b'')"
proof -
  have d: "hugeDigits \<noteq> []" "list_all isDigit hugeDigits" "list_all isDigit []"
    by (simp_all add: hugeDigits_def isDigit_def list_all_iff)
  have u: "list_all isLetter ''b''" by (simp add: isLetter_def isLower_def)
  have t: "trim (hugeDigits @ ''b'') = hugeDigits @ ''b''"
    using literal_unit_trim [OF d u] by (simp add: decimalLiteral_def)
  have m: "sizeMatch (hugeDigits @ ''b'') = Some (hugeDigits, ''b'')"
    using sizeMatch_literal [OF d u]
    by (simp add: decimalLiteral_def SIZE_UNITS_def includes'_def toLowerCase_def lowerChar_def
        isUpper_def)
  have low: "toLowerCase ''b'' = ''b''"
    by (simp add: toLowerCase_def lowerChar_def isUpper_def)
  show ?thesis
    using d(1)
    by (simp add: Size_new_def parseToBytes_def Size_isValid_def t m low hugeDigits_overflow
        isFinite_def)
qed

subsection \<open>Durations\<close>

text \<open>
  A duration string in the sense of the specification: the concatenation of segments, each
  a decimal literal followed by one of the units \<open>ms, s, m, h, d, w\<close>. \<open>claimedFactor\<close>
  is the table of millisecond factors as the specification states it, and \<open>segmentMs\<close>
  the value of a segment times the factor of its unit, as a rational number.
\<close>

type_synonym Segment = "string \<times> string \<times> string"

definition segmentText :: "Segment \<Rightarrow> string" where
  "segmentText seg = (case seg of (ds, fs, u) \<Rightarrow> decimalLiteral ds fs @ u)"

definition durationText :: "Segment list \<Rightarrow> string" where
  "durationText segs = concat (map segmentText segs)"

definition CLAIMED_UNITS :: "string list" where
  "CLAIMED_UNITS = [''ms'', ''s'', ''m'', ''h'', ''d'', ''w'']"

definition claimedFactor :: "string \<Rightarrow> rat" where
  "claimedFactor u =
     (if u = ''ms'' then 1 else if u = ''s'' then 1000 else if u = ''m'' then 60000
      else if u = ''h'' then 3600000 else if u = ''d'' then 86400000
      else if u = ''w'' then 604800000 else 0)"

definition validSegment :: "Segment \<Rightarrow> bool" where
  "validSegment seg =
     (case seg of (ds, fs, u) \<Rightarrow>
        ds \<noteq> [] \<and> list_all isDigit ds \<and> list_all isDigit fs \<and> includes' CLAIMED_UNITS u)"

definition segmentMs :: "Segment \<Rightarrow> rat" where
  "segmentMs seg = (case seg of (ds, fs, u) \<Rightarrow> decimalValue ds fs * claimedFactor u)"

text \<open>
  The same sum in the arithmetic of the doubles: the value of each number is rounded to
  a double, its product with the factor is rounded, and the products are added to the
  total from left to right, each sum being rounded. A segment is whole when its number
  has no fraction.
\<close>

definition segmentDouble :: "Segment \<Rightarrow> JsNumber" where
  "segmentDouble seg =
     (case seg of (ds, fs, u) \<Rightarrow> jsTimes (fromRat (decimalValue ds fs)) (Finite (claimedFactor u)))"

definition doubleSum :: "Segment list \<Rightarrow> JsNumber" where
  "doubleSum segs = foldl (\<lambda>tot seg. jsPlus tot (segmentDouble seg)) (Finite 0) segs"

definition wholeSegment :: "Segment \<Rightarrow> bool" where
  "wholeSegment seg = (case seg of (ds, fs, u) \<Rightarrow> fs = [])"

lemma claimed_unit_cases:
  assumes "includes' CLAIMED_UNITS u"
  obtains "u = ''ms''" | "u = ''s''" | "u = ''m''" | "u = ''h''" | "u = ''d''" | "u = ''w''"
  using assms by (auto simp: includes'_def CLAIMED_UNITS_def)

lemma digit_not_unit_char: "isDigit c \<Longrightarrow> c \<noteq> CHR ''s'' \<and> c \<noteq> CHR ''o''"
  by (auto simp: isDigit_def)

lemma unit_found:
  assumes u: "includes' CLAIMED_UNITS u" and rest: "rest = [] \<or> isDigit (hd rest)"
  shows "find (\<lambda>x. startsWith (u @ rest) x) TIME_UNITS = Some u"
proof -
  have r: "\<not> prefix ''s'' rest" 
    using rest by (cases rest) (auto dest: digit_not_unit_char)
  from u show ?thesis
    by (cases rule: claimed_unit_cases) (simp_all add: TIME_UNITS_def startsWith_def r)
qed

lemma unit_factor: "includes' CLAIMED_UNITS u \<Longrightarrow> unitToMs u = Inr (claimedFactor u)"
  by (erule claimed_unit_cases) (simp_all add: unitToMs_def claimedFactor_def)

lemma claimed_unit_letters: "includes' CLAIMED_UNITS u \<Longrightarrow> u \<noteq> [] \<and> list_all isLetter u"
  by (erule claimed_unit_cases) (simp_all add: isLetter_def isLower_def)

lemma durationMatch_segment:
  assumes ds: "ds \<noteq> []" "list_all isDigit ds" and fs: "list_all isDigit fs"
    and u: "includes' CLAIMED_UNITS u" and rest: "rest = [] \<or> isDigit (hd rest)"
  shows "durationMatch (decimalLiteral ds fs @ u @ rest) = Some (decimalLiteral ds fs, u, rest)"
proof -
  from claimed_unit_letters [OF u] have "isLetter (hd (u @ rest))" "u @ rest \<noteq> []"
    by (cases u; simp)+
  then have "u @ rest = [] \<or> (\<not> isDigit (hd (u @ rest)) \<and> hd (u @ rest) \<noteq> CHR ''.'')"
    by (auto dest: letter_not_digit letter_not_dot)
  then have "numberPrefix (decimalLiteral ds fs @ u @ rest) = Some (decimalLiteral ds fs, u @ rest)"
    using ds fs by (intro numberPrefix_literal)
  then show ?thesis
    by (simp add: durationMatch_def unit_found [OF u rest])
qed

lemma claimedFactor_ge1: "includes' CLAIMED_UNITS u \<Longrightarrow> 1 \<le> claimedFactor u"
  by (erule claimed_unit_cases) (simp_all add: claimedFactor_def)

lemma claimedFactor_int: "claimedFactor u \<in> \<int>"
  by (simp add: claimedFactor_def)

lemma segmentMs_bounds:
  assumes "validSegment seg"
  shows "0 \<le> segmentMs seg" and "seg = (ds, fs, u) \<Longrightarrow> decimalValue ds fs \<le> segmentMs seg"
proof -
  obtain ds' fs' u' where seg: "seg = (ds', fs', u')" by (cases seg) auto
  with assms have f: "1 \<le> claimedFactor u'"
    by (auto simp: validSegment_def intro: claimedFactor_ge1)
  have v: "0 \<le> decimalValue ds' fs'" by (rule decimalValue_nonneg)
  from v f have "decimalValue ds' fs' * 1 \<le> decimalValue ds' fs' * claimedFactor u'"
    by (intro mult_left_mono) simp_all
  with v seg show "0 \<le> segmentMs seg"
    and "seg = (ds, fs, u) \<Longrightarrow> decimalValue ds fs \<le> segmentMs seg"
    by (auto simp: segmentMs_def)
qed

text \<open>The loop of \<open>parseDuration\<close> finds the segments of such a string one after the
  other, and adds the product of each to the total.\<close>

lemma durationLoop_segment:
  assumes "validSegment seg" and "rest = [] \<or> isDigit (hd rest)"
  shows "durationLoop (segmentText seg @ rest) tot found =
           durationLoop rest (jsPlus tot (segmentDouble seg)) True"
proof -
  obtain ds fs u where seg: "seg = (ds, fs, u)" by (cases seg) auto
  with assms have ds: "ds \<noteq> []" "list_all isDigit ds" and fs: "list_all isDigit fs"
    and u: "includes' CLAIMED_UNITS u"
    by (auto simp: validSegment_def)
  have n: "Number (decimalLiteral ds fs) = fromRat (decimalValue ds fs)"
    using ds fs by (rule Number_literal)
  show ?thesis
    by (subst durationLoop.simps)
       (simp add: seg segmentText_def segmentDouble_def durationMatch_segment [OF ds fs u assms(2)]
          unit_factor [OF u] n literal_nonempty [OF ds(1)])
qed

lemma durationText_start:
  "list_all validSegment segs \<Longrightarrow> durationText segs = [] \<or> isDigit (hd (durationText segs))"
proof (cases segs)
  case Nil
  then show ?thesis by (simp add: durationText_def)
next
  case (Cons seg rest)
  assume "list_all validSegment segs"
  with Cons obtain ds fs u where "seg = (ds, fs, u)" "ds \<noteq> []" "list_all isDigit ds"
    by (cases seg) (auto simp: validSegment_def)
  with Cons show ?thesis
    by (cases ds) (auto simp: durationText_def segmentText_def decimalLiteral_def)
qed

lemma durationLoop_text:
  "list_all validSegment segs \<Longrightarrow>
     durationLoop (durationText segs) tot found =
       Inr (foldl (\<lambda>tot seg. jsPlus tot (segmentDouble seg)) tot segs, found \<or> segs \<noteq> [])"
proof (induction segs arbitrary: tot found)
  case Nil
  show ?case by (subst durationLoop.simps) (simp add: durationText_def)
next
  case (Cons seg segs)
  then have v: "validSegment seg" and vs: "list_all validSegment segs" by auto
  have "durationLoop (durationText (seg # segs)) tot found =
          durationLoop (segmentText seg @ durationText segs) tot found"
    by (simp add: durationText_def)
  also have "\<dots> = durationLoop (durationText segs) (jsPlus tot (segmentDouble seg)) True"
    using v durationText_start [OF vs] by (rule durationLoop_segment)
  also have "\<dots> = Inr (foldl (\<lambda>tot seg. jsPlus tot (segmentDouble seg))
                         (jsPlus tot (segmentDouble seg)) segs, True)"
    using Cons.IH [OF vs, of "jsPlus tot (segmentDouble seg)" True] by simp
  finally show ?case by simp
qed

lemma durationText_trim:
  assumes "segs \<noteq> []" "list_all validSegment segs"
  shows "durationText segs \<noteq> [] \<and> trim (durationText segs) = durationText segs"
proof -
  from assms obtain seg0 segs0 where c: "segs = seg0 # segs0" by (cases segs) auto
  from assms obtain segs1 seg1 where s: "segs = segs1 @ [seg1]" by (cases segs rule: rev_cases) auto
  with assms obtain ds fs u where seg1: "seg1 = (ds, fs, u)" and u: "includes' CLAIMED_UNITS u"
    by (cases seg1) (auto simp: validSegment_def)
  from c assms obtain ds0 fs0 u0 where "seg0 = (ds0, fs0, u0)" "ds0 \<noteq> []"
    by (cases seg0) (auto simp: validSegment_def)
  with c have ne: "durationText segs \<noteq> []"
    by (simp add: durationText_def segmentText_def decimalLiteral_def)
  have hd: "isDigit (hd (durationText segs))"
    using durationText_start [OF assms(2)] ne by simp
  have "last (durationText segs) = last u"
    using claimed_unit_letters [OF u] by (simp add: s seg1 durationText_def segmentText_def)
  moreover have "isLetter (last u)"
    using claimed_unit_letters [OF u] by (auto simp: list_all_iff)
  ultimately have "\<not> isSpace (last (durationText segs))" by (simp add: letter_not_space)
  with ne hd show ?thesis by (auto intro!: trim_id dest: digit_not_space)
qed

text \<open>On whole segments whose total is at most \<open>2^53\<close> no rounding occurs.\<close>

lemma segments_nonneg: "list_all validSegment segs \<Longrightarrow> 0 \<le> sum_list (map segmentMs segs)"
  by (induction segs) (auto dest: segmentMs_bounds(1))

lemma segmentMs_int: "wholeSegment seg \<Longrightarrow> segmentMs seg \<in> \<int>"
  by (cases seg) (simp add: wholeSegment_def segmentMs_def decimalValue_whole claimedFactor_int)

lemma whole_segment_exact:
  assumes v: "validSegment seg" and w: "wholeSegment seg"
    and a: "a \<in> \<int>" "0 \<le> a" "a + segmentMs seg \<le> 2 ^ 53"
  shows "jsPlus (Finite a) (segmentDouble seg) = Finite (a + segmentMs seg)"
proof -
  obtain ds fs u where seg: "seg = (ds, fs, u)" by (cases seg) auto
  with w have fs: "fs = []" by (simp add: wholeSegment_def)
  define d where "d = decimalValue ds []"
  define f where "f = claimedFactor u"
  have d: "d \<in> \<int>" "0 \<le> d" by (simp_all add: d_def decimalValue_whole)
  have f: "f \<in> \<int>" "1 \<le> f"
    using v seg by (simp_all add: f_def claimedFactor_int validSegment_def claimedFactor_ge1)
  have ms: "segmentMs seg = d * f" by (simp add: seg fs segmentMs_def d_def f_def)
  have "d * 1 \<le> d * f" using d(2) f(2) by (intro mult_left_mono) simp_all
  then have dle: "d \<le> d * f" by simp
  have p53: "d * f \<le> 2 ^ 53" using a(2,3) by (simp add: ms)
  have d53: "d \<le> 2 ^ 53" using dle p53 by (rule order_trans)
  have p0: "0 \<le> d * f" using d(2) dle by (rule order_trans)
  have r: "fromRat d = Finite d" using d d53 by (rule fromRat_int)
  have "0 \<le> f" using f(2) by simp
  then have t: "jsTimes (Finite d) (Finite f) = Finite (d * f)"
    using d f(1) p53 by (intro jsTimes_int) simp_all
  have sd: "segmentDouble seg = Finite (d * f)"
    by (simp add: seg fs segmentDouble_def d_def [symmetric] f_def [symmetric] r t)
  have pl: "jsPlus (Finite a) (Finite (d * f)) = Finite (a + d * f)"
    using a d f(1) p0 by (intro jsPlus_int) (simp_all add: ms)
  show ?thesis unfolding sd ms by (rule pl)
qed

lemma whole_segments_exact:
  "list_all validSegment segs \<Longrightarrow> list_all wholeSegment segs \<Longrightarrow> a \<in> \<int> \<Longrightarrow> 0 \<le> a \<Longrightarrow>
   a + sum_list (map segmentMs segs) \<le> 2 ^ 53 \<Longrightarrow>
     foldl (\<lambda>tot seg. jsPlus tot (segmentDouble seg)) (Finite a) segs =
       Finite (a + sum_list (map segmentMs segs))"
proof (induction segs arbitrary: a)
  case Nil
  show ?case by simp
next
  case (Cons seg segs)
  then have v: "validSegment seg" and vs: "list_all validSegment segs"
    and w: "wholeSegment seg" and ws: "list_all wholeSegment segs" by auto
  have m0: "0 \<le> segmentMs seg" using v by (rule segmentMs_bounds(1))
  have r0: "0 \<le> sum_list (map segmentMs segs)" using vs by (rule segments_nonneg)
  from Cons.prems(5) r0 have b: "a + segmentMs seg \<le> 2 ^ 53" by simp
  have s: "jsPlus (Finite a) (segmentDouble seg) = Finite (a + segmentMs seg)"
    using v w Cons.prems(3,4) b by (rule whole_segment_exact)
  have i: "a + segmentMs seg \<in> \<int>" using Cons.prems(3) segmentMs_int [OF w] by simp
  have "foldl (\<lambda>tot seg. jsPlus tot (segmentDouble seg)) (Finite (a + segmentMs seg)) segs =
          Finite (a + segmentMs seg + sum_list (map segmentMs segs))"
    using vs ws i Cons.prems(4,5) m0 by (intro Cons.IH) (simp_all add: add.assoc)
  then show ?case by (simp add: s add.assoc)
qed

text \<open>
  Claim C7 as stated fails. The code computes in the arithmetic of the doubles, and the
  result is not always the sum of the values times the factors. For \<open>1.1h\<close> that sum is
  3960000, a double; the double next to 1.1 is slightly above it, and its product with
  3600000 is rounded up to the double after 3960000.
\<close>

theorem duration_rounding_counterexample:
  "validSegment (''1'', ''1'', ''h'') \<and>
   durationText [(''1'', ''1'', ''h'')] = ''1.1h'' \<and>
   sum_list (map segmentMs [(''1'', ''1'', ''h'')]) = 3960000 \<and>
   parseDuration ''1.1h'' = Inr (Some (Finite (3960000 + 1 / 2 ^ 31))) \<and>
   Time_new sampleHost ''1.1h'' = Inr (VTime ''1.1h'' (Finite (3960000 + 1 / 2 ^ 31)))"
proof -
  have v: "validSegment (''1'', ''1'', ''h'')"
    by (simp add: validSegment_def isDigit_def includes'_def CLAIMED_UNITS_def)
  have str: "durationText [(''1'', ''1'', ''h'')] = ''1.1h''"
    by (simp add: durationText_def segmentText_def decimalLiteral_def)
  have d: "decimalValue ''1'' ''1'' = 11 / 10"
    by (simp add: decimalValue_def digitsValue_def digitVal_def)
  have ms: "sum_list (map segmentMs [(''1'', ''1'', ''h'')]) = 3960000"
    by (simp add: segmentMs_def d claimedFactor_def)
  define x :: rat where "x = 4953959590107546 / 2 ^ 52"
  define y :: rat where "y = 3960000 + 1 / 2 ^ 31"
  have r: "fromRat (11 / 10) = Finite x" "fromRat (x * 3600000) = Finite y" "fromRat y = Finite y"
    unfolding x_def y_def by (rule rounding_examples)+
  have seg: "segmentDouble (''1'', ''1'', ''h'') = Finite y"
    by (simp add: segmentDouble_def d claimedFactor_def jsTimes_def r)
  have "durationLoop (durationText [(''1'', ''1'', ''h'')]) (Finite 0) False = Inr (Finite y, True)"
    using v by (subst durationLoop_text) (simp_all add: seg jsPlus_def r)
  then have loop: "durationLoop ''1.1h'' (Finite 0) False = Inr (Finite y, True)"
    by (simp only: str)
  have pd: "parseDuration ''1.1h'' = Inr (Some (Finite y))"
    by (simp add: parseDuration_def loop)
  have tm: "Time_new sampleHost ''1.1h'' = Inr (VTime ''1.1h'' (Finite y))"
    by (simp add: Time_new_def parseToMs_def parseDate_def sampleHost_def pd trim_def isSpace_def)
  from v str ms pd tm show ?thesis unfolding y_def by (intro conjI)
qed

text \<open>
  Claim C7, amended. For every duration string made of one or more such segments,
  \<open>parseDuration\<close> returns the sum over the segments of the value of the number times
  the millisecond factor of the unit, computed in the arithmetic of the doubles from left
  to right; and whenever the date parser, which \<open>Time\<close> tries first, does not take the
  string for a date, that sum is the value of the \<open>Time\<close> made from the string. If the
  numbers of all segments are whole and the sum of the values times the factors is at most
  \<open>2^53\<close>, the sum in the arithmetic of the doubles is that sum. In particular
  \<open>1h30m\<close> gives 5400000.
\<close>

theorem duration_sum:
  assumes "segs \<noteq> []" and "list_all validSegment segs"
  shows "parseDuration (durationText segs) = Inr (Some (doubleSum segs)) \<and>
         (parseDate h (durationText segs) = None \<longrightarrow>
            Time_new h (durationText segs) = Inr (VTime (durationText segs) (doubleSum segs))) \<and>
         (list_all wholeSegment segs \<and> sum_list (map segmentMs segs) \<le> 2 ^ 53 \<longrightarrow>
            doubleSum segs = Finite (sum_list (map segmentMs segs)))"
proof -
  have pd: "parseDuration (durationText segs) = Inr (Some (doubleSum segs))"
    using assms durationLoop_text [OF assms(2), of "Finite 0" False]
    by (simp add: parseDuration_def doubleSum_def)
  from durationText_trim [OF assms(1,2)]
  have t: "trim (durationText segs) = durationText segs" "durationText segs \<noteq> []" by auto
  have tm: "parseDate h (durationText segs) = None \<longrightarrow>
      Time_new h (durationText segs) = Inr (VTime (durationText segs) (doubleSum segs))"
    using pd by (simp add: Time_new_def parseToMs_def t)
  have ex: "list_all wholeSegment segs \<and> sum_list (map segmentMs segs) \<le> 2 ^ 53 \<longrightarrow>
      doubleSum segs = Finite (sum_list (map segmentMs segs))"
    using whole_segments_exact [OF assms(2), of 0] by (simp add: doubleSum_def)
  from pd tm ex show ?thesis by (intro conjI)
qed

theorem duration_sum_witness:
  "parseDuration ''1h30m'' = Inr (Some (Finite 5400000)) \<and>
   Time_new sampleHost ''1h30m'' = Inr (VTime ''1h30m'' (Finite 5400000))"
proof -
  have p: "parseDate sampleHost ''1h30m'' = None"
    by (simp add: parseDate_def sampleHost_def)
  have t: "durationText [(''1'', [], ''h''), (''30'', [], ''m'')] = ''1h30m''"
    by (simp add: durationText_def segmentText_def decimalLiteral_def)
  have v: "list_all validSegment [(''1'', [], ''h''), (''30'', [], ''m'')]"
    by (simp add: validSegment_def isDigit_def includes'_def CLAIMED_UNITS_def)
  have w: "list_all wholeSegment [(''1'', [], ''h''), (''30'', [], ''m'')]"
    by (simp add: wholeSegment_def)
  have s: "segmentMs (''1'', [], ''h'') + segmentMs (''30'', [], ''m'') = 5400000"
    by (simp add: segmentMs_def decimalValue_def digitsValue_def digitVal_def claimedFactor_def)
  show ?thesis
    using duration_sum [of "[(''1'', [], ''h''), (''30'', [], ''m'')]" sampleHost] p v w
    by (simp add: t s)
qed

text \<open>
  Another duration with fractions: \<open>0.1ms0.2ms\<close>. The sum of the values times the
  factors is \<open>3/10\<close>; the doubles next to \<open>0.1\<close> and \<open>0.2\<close> add up to a number
  halfway between two doubles, which is rounded to the upper one (printed
  \<open>0.30000000000000004\<close>).
\<close>

lemma tenths_rounding:
  "fromRat (1 / 10) = Finite (3602879701896397 / 2 ^ 55)"
  "fromRat (1 / 5) = Finite (3602879701896397 / 2 ^ 54)"
  "fromRat (3602879701896397 / 2 ^ 55) = Finite (3602879701896397 / 2 ^ 55)"
  "fromRat (3602879701896397 / 2 ^ 54) = Finite (3602879701896397 / 2 ^ 54)"
  "fromRat (3602879701896397 / 2 ^ 55 + 3602879701896397 / 2 ^ 54) =
     Finite (1351079888211149 / 2 ^ 52)"
proof -
  have "fromRat (1 / 10) =
      Finite (of_int (roundHalfEven ((1 / 10) / 2 powi (- 4 - 52))) * 2 powi (- 4 - 52))"
    by (rule fromRat_binade) simp_all
  then show "fromRat (1 / 10) = Finite (3602879701896397 / 2 ^ 55)"
    by (simp add: roundHalfEven_def Let_def floor_rat_numeral)
  have "fromRat (1 / 5) =
      Finite (of_int (roundHalfEven ((1 / 5) / 2 powi (- 3 - 52))) * 2 powi (- 3 - 52))"
    by (rule fromRat_binade) simp_all
  then show "fromRat (1 / 5) = Finite (3602879701896397 / 2 ^ 54)"
    by (simp add: roundHalfEven_def Let_def floor_rat_numeral)
  have "fromRat (3602879701896397 / 2 ^ 55) =
      Finite (of_int (roundHalfEven ((3602879701896397 / 2 ^ 55) / 2 powi (- 4 - 52)))
                * 2 powi (- 4 - 52))"
    by (rule fromRat_binade) simp_all
  then show "fromRat (3602879701896397 / 2 ^ 55) = Finite (3602879701896397 / 2 ^ 55)"
    by (simp add: roundHalfEven_def Let_def floor_rat_numeral)
  have "fromRat (3602879701896397 / 2 ^ 54) =
      Finite (of_int (roundHalfEven ((3602879701896397 / 2 ^ 54) / 2 powi (- 3 - 52)))
                * 2 powi (- 3 - 52))"
    by (rule fromRat_binade) simp_all
  then show "fromRat (3602879701896397 / 2 ^ 54) = Finite (3602879701896397 / 2 ^ 54)"
    by (simp add: roundHalfEven_def Let_def floor_rat_numeral)
  have "fromRat (3602879701896397 / 2 ^ 55 + 3602879701896397 / 2 ^ 54) =
      Finite (of_int (roundHalfEven ((3602879701896397 / 2 ^ 55 + 3602879701896397 / 2 ^ 54)
                 / 2 powi (- 2 - 52))) * 2 powi (- 2 - 52))"
    by (rule fromRat_binade) simp_all
  then show "fromRat (3602879701896397 / 2 ^ 55 + 3602879701896397 / 2 ^ 54) =
     Finite (1351079888211149 / 2 ^ 52)"
    by (simp add: roundHalfEven_def Let_def floor_rat_numeral)
qed

lemma duration_rounding_examples:
  "parseDuration ''0.1ms0.2ms'' = Inr (Some (Finite (1351079888211149 / 2 ^ 52)))"
  "sum_list (map segmentMs [(''0'', ''1'', ''ms''), (''0'', ''2'', ''ms'')]) = 3 / 10"
proof -
  have v: "list_all validSegment [(''0'', ''1'', ''ms''), (''0'', ''2'', ''ms'')]"
    by (simp add: validSegment_def isDigit_def includes'_def CLAIMED_UNITS_def)
  have str: "durationText [(''0'', ''1'', ''ms''), (''0'', ''2'', ''ms'')] = ''0.1ms0.2ms''"
    by (simp add: durationText_def segmentText_def decimalLiteral_def)
  have d: "decimalValue ''0'' ''1'' = 1 / 10" "decimalValue ''0'' ''2'' = 1 / 5"
    by (simp_all add: decimalValue_def digitsValue_def digitVal_def)
  define a :: rat where "a = 3602879701896397 / 2 ^ 55"
  define b :: rat where "b = 3602879701896397 / 2 ^ 54"
  define c :: rat where "c = 1351079888211149 / 2 ^ 52"
  have r: "fromRat (1 / 10) = Finite a" "fromRat (1 / 5) = Finite b" "fromRat a = Finite a"
    "fromRat b = Finite b" "fromRat (a + b) = Finite c"
    unfolding a_def b_def c_def by (rule tenths_rounding)+
  have seg: "segmentDouble (''0'', ''1'', ''ms'') = Finite a"
    "segmentDouble (''0'', ''2'', ''ms'') = Finite b"
    by (simp_all add: segmentDouble_def d claimedFactor_def jsTimes_def r)
  have "durationLoop (durationText [(''0'', ''1'', ''ms''), (''0'', ''2'', ''ms'')]) (Finite 0) False =
          Inr (Finite c, True)"
    using v by (subst durationLoop_text) (simp_all add: seg jsPlus_def r)
  then have "durationLoop ''0.1ms0.2ms'' (Finite 0) False = Inr (Finite c, True)"
    by (simp only: str)
  then show "parseDuration ''0.1ms0.2ms'' = Inr (Some (Finite (1351079888211149 / 2 ^ 52)))"
    by (simp add: parseDuration_def c_def)
  show "sum_list (map segmentMs [(''0'', ''1'', ''ms''), (''0'', ''2'', ''ms'')]) = 3 / 10"
    by (simp add: segmentMs_def d claimedFactor_def)
qed

section \<open>Default values\<close>

text \<open>\<open>new Command('wait').option('timeout', { type: 'time', defaultValue: '5s' })\<close>.\<close>

definition timeoutOption :: CmdOption where
  "timeoutOption =
     \<lparr>type = Some TTime, description = None, optional = False,
      defaultValue = Some (VString ''5s''), choices = [], alias' = []\<rparr>"

definition wait :: Command where
  "wait = Command (Some ''wait'') [] [] [] [(''timeout'', timeoutOption)] None (Some 0)"

text \<open>
  Claim C3, at the input where the code departs from it. The option \<open>timeout\<close> of
  \<open>wait\<close> has type time and the default \<open>'5s'\<close>. On the empty argument vector the
  defaulting step binds the string \<open>'5s'\<close> itself, whereas the coercion of \<open>'5s'\<close> for
  the kind time is the \<open>Time\<close> of 5000 milliseconds.
\<close>

theorem default_bound_uncoerced:
  "run h version wait [] = HandlerCalled wait [] [(''timeout'', VString ''5s'')] \<and>
   parseValue sampleHost TTime ''5s'' [] = Inr (VTime ''5s'' (Finite 5000))"
proof -
  have bound: "run h version wait [] = HandlerCalled wait [] [(''timeout'', VString ''5s'')]"
    by code_simp
  have str: "durationText [(''5'', [], ''s'')] = ''5s''"
    by (simp add: durationText_def segmentText_def decimalLiteral_def)
  have ms: "segmentMs (''5'', [], ''s'') = 5000"
    by (simp add: segmentMs_def decimalValue_def digitsValue_def digitVal_def claimedFactor_def)
  have valid: "list_all validSegment [(''5'', [], ''s'')]"
    by (simp add: validSegment_def isDigit_def includes'_def CLAIMED_UNITS_def)
  have whole: "list_all wholeSegment [(''5'', [], ''s'')]"
    by (simp add: wholeSegment_def)
  have "foldl (\<lambda>tot seg. jsPlus tot (segmentDouble seg)) (Finite 0) [(''5'', [], ''s'')] =
          Finite 5000"
    using whole_segments_exact [OF valid whole, of 0] by (simp add: ms)
  then have "durationLoop ''5s'' (Finite 0) False = Inr (Finite 5000, True)"
    using durationLoop_text [OF valid, of "Finite 0" False] by (simp add: str)
  then have "parseValue sampleHost TTime ''5s'' [] = Inr (VTime ''5s'' (Finite 5000))"
    by (simp add: parseValue_def Time_new_def parseToMs_def parseDate_def sampleHost_def
        parseDuration_def trim_def isSpace_def)
  with bound show ?thesis by simp
qed

section \<open>JSON coercion\<close>

text \<open>
  A forbidden key among the keys of an object or of an object nested in it through
  object-valued entries. The entries of arrays are not looked into, as
  \<open>sanitizeObject\<close> copies an array as it is.
\<close>

fun forbiddenInObjects :: "(string \<times> Json) list \<Rightarrow> bool" where
  "forbiddenInObjects [] = False"
| "forbiddenInObjects ((k, v) # es) =
     (if includes' FORBIDDEN_KEYS k then True
      else (case v of
              JObj inner \<Rightarrow> if forbiddenInObjects inner then True else forbiddenInObjects es
            | _ \<Rightarrow> forbiddenInObjects es))"

text \<open>\<open>sanitizeObject\<close> throws exactly on such objects, and returns a copy of the others.\<close>

lemma sanitizeObject_cases:
  "(forbiddenInObjects es \<longrightarrow>
      (\<exists>k. includes' FORBIDDEN_KEYS k \<and> sanitizeObject es = Inl (ParsingError (InvalidJSONKey k)))) \<and>
   (\<not> forbiddenInObjects es \<longrightarrow> sanitizeObject es = Inr es)"
  by (induction es rule: sanitizeObject.induct) (auto split: Json.splits, blast, fastforce)

text \<open>
  Claim C9 as stated fails. The forbidden words are looked for only after the strict
  \<open>JSON.parse\<close> has failed, so a text that is JSON and contains the word
  \<open>process\<close> is accepted; and an object inside an array is returned with its key
  \<open>__proto__\<close>.
\<close>

theorem json_token_counterexample:
  \<open>FORBIDDEN_TOKENS ''{"a":"process"}'' \<and>
   parseJson sampleHost ''{"a":"process"}'' = Inr [(''a'', JStr ''process'')] \<and>
   parseJson sampleHost ''{"a":[{"__proto__":1}]}'' =
     Inr [(''a'', JArr [JObj [(''__proto__'', JNum (Finite 1))]])]\<close>
  by code_simp

text \<open>
  Claim C9, amended. If the strict parse of the input fails and the input contains a
  forbidden word (\<open>process\<close> among them), the coercion fails with
  \<open>Invalid object syntax\<close>. If the parsed value, of either attempt, is an object with
  \<open>__proto__\<close>, \<open>prototype\<close> or \<open>constructor\<close> among its keys or the keys of an
  object nested in it through object-valued entries, the coercion fails with
  \<open>Invalid JSON key\<close>. And an object that the coercion returns has none of the three
  keys, at any depth of such nesting.
\<close>

theorem json_coercion:
  "(JSON_parse h input = None \<and> FORBIDDEN_TOKENS input \<longrightarrow>
      parseJson h input = Inl (ParsingError (InvalidObjectSyntax input))) \<and>
   (parseAttempts h input = Inr (JObj entries) \<and> forbiddenInObjects entries \<longrightarrow>
      (\<exists>k. includes' FORBIDDEN_KEYS k \<and>
           parseJson h input = Inl (ParsingError (InvalidJSONKey k)))) \<and>
   (parseJson h input = Inr obj \<longrightarrow> \<not> forbiddenInObjects obj)"
proof (intro conjI impI)
  assume "JSON_parse h input = None \<and> FORBIDDEN_TOKENS input"
  then show "parseJson h input = Inl (ParsingError (InvalidObjectSyntax input))"
    by (simp add: parseJson_def parseAttempts_def jsObjectToJson_def)
next
  assume "parseAttempts h input = Inr (JObj entries) \<and> forbiddenInObjects entries"
  then show "\<exists>k. includes' FORBIDDEN_KEYS k \<and>
                parseJson h input = Inl (ParsingError (InvalidJSONKey k))"
    using sanitizeObject_cases [of entries] by (simp add: parseJson_def)
next
  assume r: "parseJson h input = Inr obj"
  then obtain entries where e: "parseAttempts h input = Inr (JObj entries)"
    and s: "sanitizeObject entries = Inr obj"
    by (auto simp: parseJson_def split: sum.splits Json.splits)
  from s sanitizeObject_cases [of entries] have "\<not> forbiddenInObjects entries" "obj = entries"
    by auto
  then show "\<not> forbiddenInObjects obj" by simp
qed

theorem json_coercion_witness:
  \<open>parseJson sampleHost ''{ a: process }'' =
     Inl (ParsingError (InvalidObjectSyntax ''{ a: process }'')) \<and>
   (\<exists>k. includes' FORBIDDEN_KEYS k \<and>
        parseJson sampleHost ''{"__proto__":1}'' = Inl (ParsingError (InvalidJSONKey k))) \<and>
   parseJson sampleHost ''{"a":1}'' = Inr [(''a'', JNum (Finite 1))] \<and>
   \<not> forbiddenInObjects [(''a'', JNum (Finite 1))]\<close>
proof -
  have h1: \<open>JSON_parse sampleHost ''{ a: process }'' = None \<and>
            FORBIDDEN_TOKENS ''{ a: process }''\<close>
    by code_simp
  have h2: \<open>parseAttempts sampleHost ''{"__proto__":1}'' =
              Inr (JObj [(''__proto__'', JNum (Finite 1))]) \<and>
            forbiddenInObjects [(''__proto__'', JNum (Finite 1))]\<close>
    by code_simp
  have h3: \<open>parseJson sampleHost ''{"a":1}'' = Inr [(''a'', JNum (Finite 1))]\<close>
    by code_simp
  have a: \<open>parseJson sampleHost ''{ a: process }'' =
             Inl (ParsingError (InvalidObjectSyntax ''{ a: process }''))\<close>
    by (rule json_coercion [of sampleHost \<open>''{ a: process }''\<close>,
          THEN conjunct1, THEN mp, OF h1])
  have b: \<open>\<exists>k. includes' FORBIDDEN_KEYS k \<and>
             parseJson sampleHost ''{"__proto__":1}'' = Inl (ParsingError (InvalidJSONKey k))\<close>
    by (rule json_coercion [of sampleHost \<open>''{"__proto__":1}''\<close>
          \<open>[(''__proto__'', JNum (Finite 1))]\<close>,
          THEN conjunct2, THEN conjunct1, THEN mp, OF h2])
  have c: \<open>\<not> forbiddenInObjects [(''a'', JNum (Finite 1))]\<close>
    by (rule json_coercion [of sampleHost \<open>''{"a":1}''\<close> _ \<open>[(''a'', JNum (Finite 1))]\<close>,
          THEN conjunct2, THEN conjunct2, THEN mp, OF h3])
  show ?thesis by (intro conjI a b h3 c)
qed

text \<open>
  The second attempt accepts an object literal with unquoted keys, and a forbidden key in
  a nested object is found.
\<close>

lemma json_examples:
  \<open>parseJson sampleHost ''{ a: 1 }'' = Inr [(''a'', JNum (Finite 1))]\<close>
  \<open>parseJson sampleHost ''{"a":{"constructor":1}}'' =
     Inl (ParsingError (InvalidJSONKey ''constructor''))\<close>
  by code_simp+

section \<open>Construction of the command tree\<close>

text \<open>
  The commands that a program can build. \<open>invoke\<close> is a call of a method on a
  command (\<open>call\<close>), by its effect on that command; \<open>command(name)\<close> with no second
  argument registers a new child. \<open>attach\<close> is \<open>command(name, g)\<close> with a command
  \<open>g\<close> built before. A registered child is the same object as the command returned
  or passed, so later calls on it show in the parent (\<open>child\<close>): the child registered
  under a name may be any built command.
\<close>

datatype BuildCall =
    OptionCall string CmdOption
  | ArgumentCall string Argument
  | CommandCall string
  | AliasCall "string list"
  | DescriptionCall string
  | ActionCall nat

definition call :: "BuildCall \<Rightarrow> Command \<Rightarrow> Error + Command" where
  "call x c =
     (case x of
        OptionCall n config \<Rightarrow> option n config c
      | ArgumentCall n config \<Rightarrow> argument n config c
      | CommandCall n \<Rightarrow> command n None c
      | AliasCall names \<Rightarrow> alias_method names c
      | DescriptionCall d \<Rightarrow> description' d c
      | ActionCall callback \<Rightarrow> action callback c)"

definition withChild :: "string \<Rightarrow> Command \<Rightarrow> Command \<Rightarrow> Command" where
  "withChild n child c =
     Command (name c)
       (AList.update n
          (Command (Some n) (commands child) (aliases child) (argumentsDef child)
             (optionsDef child) (commandDescription child) (handler child))
          (commands c))
       (aliases c) (argumentsDef c) (optionsDef c) (commandDescription c) (handler c)"

inductive built :: "Command \<Rightarrow> bool" where
  new: "built (new_Command n)"
| invoke: "built c \<Longrightarrow> call x c = Inr c' \<Longrightarrow> built c'"
| attach: "built c \<Longrightarrow> built g \<Longrightarrow> command n (Some g) c = Inr c' \<Longrightarrow> built c'"
| child: "built c \<Longrightarrow> has (commands c) n \<Longrightarrow> built g \<Longrightarrow> built (withChild n g c)"

text \<open>
  No two option definitions of a command, or of a command below it, have the same name;
  and, as the specification has it, no two share a name or an alias.
\<close>

fun optionNamesDistinct :: "Command \<Rightarrow> bool" where
  "optionNamesDistinct (Command n cs al ad od d h) =
     (distinct (map fst od) \<and> list_all (\<lambda>p. optionNamesDistinct (snd p)) cs)"

definition noSharedOptionNames :: "Command \<Rightarrow> bool" where
  "noSharedOptionNames c = distinct (concat (map (\<lambda>(n, opt). n # alias' opt) (optionsDef c)))"

lemma list_all_update:
  "list_all P al \<Longrightarrow> P (k, v) \<Longrightarrow> list_all P (AList.update k v al)"
  by (induction al) auto

lemma optionNamesDistinct_iff:
  "optionNamesDistinct c =
     (distinct (map fst (optionsDef c)) \<and> list_all (\<lambda>p. optionNamesDistinct (snd p)) (commands c))"
  by (cases c) simp

lemma call_result:
  assumes "call x c = Inr c'"
  shows "(\<exists>n config. optionsDef c' = AList.update n config (optionsDef c) \<and>
            commands c' = commands c) \<or>
         (\<exists>n. optionsDef c' = optionsDef c \<and>
            commands c' = AList.update n (Command (Some n) [] [] [] [] None None) (commands c)) \<or>
         (optionsDef c' = optionsDef c \<and> commands c' = commands c)"
proof (cases x)
  case (OptionCall n config)
  with assms have "optionsDef c' = AList.update n (withDefaultType config) (optionsDef c) \<and>
      commands c' = commands c"
    by (auto simp: call_def option_def Let_def split: if_splits)
  then show ?thesis by blast
next
  case (ArgumentCall n config)
  with assms have "optionsDef c' = optionsDef c \<and> commands c' = commands c"
    by (auto simp: call_def argument_def Let_def split: if_splits)
  then show ?thesis by blast
next
  case (CommandCall n)
  with assms have "optionsDef c' = optionsDef c \<and>
      commands c' = AList.update n (Command (Some n) [] [] [] [] None None) (commands c)"
    by (auto simp: call_def command_def Let_def new_Command_def split: if_splits)
  then show ?thesis by blast
next
  case (AliasCall names)
  with assms show ?thesis by (auto simp: call_def alias_method_def)
next
  case (DescriptionCall d)
  with assms show ?thesis by (auto simp: call_def description'_def)
next
  case (ActionCall callback)
  with assms show ?thesis by (auto simp: call_def action_def split: if_splits)
qed

lemma call_preserves:
  assumes c: "optionNamesDistinct c" and x: "call x c = Inr c'"
  shows "optionNamesDistinct c'"
proof -
  from c have d: "distinct (map fst (optionsDef c))"
    and a: "list_all (\<lambda>p. optionNamesDistinct (snd p)) (commands c)"
    using optionNamesDistinct_iff [of c] by auto
  have leaf: "optionNamesDistinct (Command (Some n) [] [] [] [] None None)" for n
    by simp
  from call_result [OF x] d a leaf
  have "distinct (map fst (optionsDef c')) \<and>
        list_all (\<lambda>p. optionNamesDistinct (snd p)) (commands c')"
    by (auto simp: distinct_update intro!: list_all_update)
  then show ?thesis using optionNamesDistinct_iff [of c'] by simp
qed

lemma withChild_preserves:
  assumes "optionNamesDistinct c" and "optionNamesDistinct g"
  shows "optionNamesDistinct (withChild n g c)"
proof -
  from assms(1) have d: "distinct (map fst (optionsDef c))"
    and a: "list_all (\<lambda>p. optionNamesDistinct (snd p)) (commands c)"
    using optionNamesDistinct_iff [of c] by auto
  from assms(2) have g: "distinct (map fst (optionsDef g))"
    and ga: "list_all (\<lambda>p. optionNamesDistinct (snd p)) (commands g)"
    using optionNamesDistinct_iff [of g] by auto
  show ?thesis
    using d a g ga by (simp add: withChild_def list_all_update)
qed

lemma attach_is_withChild:
  "command n (Some g) c = Inr c' \<Longrightarrow> c' = withChild n g c"
  by (auto simp: command_def withChild_def Let_def split: if_splits)

lemma built_optionNamesDistinct: "built c \<Longrightarrow> optionNamesDistinct c"
proof (induction rule: built.induct)
  case (new n)
  show ?case by (simp add: new_Command_def)
next
  case (invoke c x c')
  then show ?case by (auto intro: call_preserves)
next
  case (attach c g n c')
  then show ?case by (auto dest!: attach_is_withChild intro: withChild_preserves)
next
  case (child c n g)
  then show ?case by (auto intro: withChild_preserves)
qed

text \<open>
  Claim C5, amended. Registering an option under a name that is already the name of an
  option of the command fails (\<open>Option "--name" is already defined\<close>). Under every
  other name the registration succeeds and the command has the option under that name,
  whatever the aliases of the new option and of the options registered before are:
  aliases are not compared with anything. And in every command that can be built, and
  every command below it, no two option definitions have the same name.
\<close>

theorem option_names_unique:
  "(has (optionsDef c) n \<longrightarrow> option n config c = Inl (CommandError (DuplicateOption n))) \<and>
   (\<not> has (optionsDef c) n \<longrightarrow>
      (\<exists>c'. option n config c = Inr c' \<and>
            map_of (optionsDef c') n = Some (withDefaultType config))) \<and>
   (built c \<longrightarrow> optionNamesDistinct c)"
  by (simp add: option_def Let_def update_conv' built_optionNamesDistinct)

text \<open>\<open>new Command('list').option('all', { alias: ['a'] }).option('any', { alias: ['a'] })\<close>.\<close>

definition allOption :: CmdOption where
  "allOption =
     \<lparr>type = Some TBoolean, description = None, optional = False, defaultValue = None,
      choices = [], alias' = [''a'']\<rparr>"

definition anyOption :: CmdOption where
  "anyOption =
     \<lparr>type = Some TBoolean, description = None, optional = False, defaultValue = None,
      choices = [], alias' = [''a'']\<rparr>"

definition listAll :: Command where
  "listAll = Command (Some ''list'') [] [] [] [(''all'', allOption)] None None"

definition listAllAny :: Command where
  "listAllAny =
     Command (Some ''list'') [] [] [] [(''all'', allOption), (''any'', anyOption)] None None"

lemma listAll_built: "built listAll"
proof -
  have "call (OptionCall ''all'' allOption) (new_Command (Some ''list'')) = Inr listAll"
    by (simp add: call_def option_def new_Command_def listAll_def has_def withDefaultType_def
        allOption_def)
  with built.new [of "Some ''list''"] show ?thesis by (rule built.invoke)
qed

lemma listAllAny_call: "call (OptionCall ''any'' anyOption) listAll = Inr listAllAny"
  by (simp add: call_def option_def listAll_def listAllAny_def has_def withDefaultType_def
      anyOption_def)

text \<open>
  Claim C5 as stated fails: registering the option \<open>any\<close> with the alias \<open>a\<close>, which
  is already an alias of the option \<open>all\<close>, succeeds, and the command built has two
  option definitions that share the alias.
\<close>

theorem alias_collision_counterexample:
  "option ''any'' anyOption listAll = Inr listAllAny \<and> built listAllAny \<and>
   \<not> noSharedOptionNames listAllAny"
proof -
  have 1: "option ''any'' anyOption listAll = Inr listAllAny"
    using listAllAny_call by (simp add: call_def)
  have 2: "built listAllAny"
    using listAll_built listAllAny_call by (rule built.invoke)
  have 3: "\<not> noSharedOptionNames listAllAny"
    by (simp add: noSharedOptionNames_def listAllAny_def allOption_def anyOption_def)
  from 1 2 3 show ?thesis by simp
qed

theorem option_names_unique_witness:
  "has (optionsDef listAll) ''all'' \<and>
   option ''all'' anyOption listAll = Inl (CommandError (DuplicateOption ''all'')) \<and>
   \<not> has (optionsDef listAll) ''any'' \<and>
   (\<exists>c'. option ''any'' anyOption listAll = Inr c' \<and>
         map_of (optionsDef c') ''any'' = Some (withDefaultType anyOption)) \<and>
   built listAll \<and> optionNamesDistinct listAll"
proof -
  have a: "has (optionsDef listAll) ''all''" "\<not> has (optionsDef listAll) ''any''"
    by (simp_all add: listAll_def has_def)
  show ?thesis
    using option_names_unique [of listAll "''all''" anyOption]
          option_names_unique [of listAll "''any''" anyOption] a listAll_built
    by blast
qed

end
